theory Spec2Isabelle
  imports Main
begin

section \<open>Clock\<close>

text \<open>
  Every handler reads the clock through \<open>Date.now()\<close>, a number of milliseconds.
  A handler invocation is modelled at one instant \<open>now\<close>. The two roundings the
  source applies are \<open>Math.floor(ms / 1000)\<close> and \<open>Math.ceil(ms / 1000)\<close>.
\<close>

definition floor_sec :: "nat \<Rightarrow> nat" where
  "floor_sec ms = ms div 1000"

definition ceil_sec :: "nat \<Rightarrow> nat" where
  "ceil_sec ms = (ms + 999) div 1000"

text \<open>
  \<open>Math.ceil(windowMs / 1000)\<close> for a parameter the caller may have left out:
  \<open>undefined / 1000\<close> is NaN and so is its ceiling. \<open>None\<close> stands for \<open>undefined\<close> in
  the argument and for NaN in the result.
\<close>

definition js_ceil_sec :: "nat option \<Rightarrow> nat option" where
  "js_ceil_sec ms = map_option ceil_sec ms"

section \<open>JavaScript strings\<close>

text \<open>
  Strings are byte strings. \<open>toLowerCase\<close> maps the letters A to Z to a to z.
\<close>

definition toLowerCase :: "string \<Rightarrow> string" where
  "toLowerCase s =
     map (\<lambda>ch. case map_of (zip ''ABCDEFGHIJKLMNOPQRSTUVWXYZ'' ''abcdefghijklmnopqrstuvwxyz'') ch of
                 None \<Rightarrow> ch
               | Some l \<Rightarrow> l) s"

text \<open>
  \<open>parseInt(string)\<close> without a radix: leading white space is skipped, a sign is read,
  a prefix \<open>0x\<close> or \<open>0X\<close> selects base 16, and the longest run of digits of the base
  is the number; without a digit the result is NaN (\<open>None\<close>). The numbers of the model
  are exact, where JavaScript's round above \<open>2^53\<close>.
\<close>

definition is_space :: "char \<Rightarrow> bool" where
  "is_space ch = (ch \<in> set [CHR '' '', CHR 0x09, CHR 0x0A, CHR 0x0B, CHR 0x0C, CHR 0x0D])"

definition digit_of :: "nat \<Rightarrow> char \<Rightarrow> nat option" where
  "digit_of radix ch =
     (case map_of (zip ''0123456789abcdefABCDEF'' ([0..<16] @ [10..<16])) ch of
        None \<Rightarrow> None
      | Some d \<Rightarrow> if d < radix then Some d else None)"

fun digits :: "nat \<Rightarrow> string \<Rightarrow> nat list" where
  "digits radix [] = []"
| "digits radix (ch # s) =
     (case digit_of radix ch of None \<Rightarrow> [] | Some d \<Rightarrow> d # digits radix s)"

definition parseInt :: "string \<Rightarrow> int option" where
  "parseInt s =
     (let t = dropWhile is_space s;
          neg = (t \<noteq> [] \<and> hd t = CHR ''-'');
          u = (if t \<noteq> [] \<and> (hd t = CHR ''-'' \<or> hd t = CHR ''+'') then tl t else t);
          hex = (take 2 u = ''0x'' \<or> take 2 u = ''0X'');
          radix = (if hex then 16 else 10);
          ds = digits radix (if hex then drop 2 u else u)
      in if ds = [] then None
         else Some ((if neg then - 1 else 1) * int (foldl (\<lambda>a d. radix * a + d) 0 ds)))"

text \<open>
  \<open>JSON.parse(string)\<close>, as far as the session loop looks at its result: \<open>null\<close>, a
  number or a boolean (which have no \<open>userId\<close>), or a text that is refused. A session
  record has its own constructor among the stored values; a value holding another
  object, an array or a quoted string as JSON text is not told apart from a text that
  does not parse. No handler stores one.
\<close>

datatype json_view = NotJson | JsonNull | JsonPrimitive

definition json_ws :: "char \<Rightarrow> bool" where
  "json_ws ch = (ch \<in> set [CHR '' '', CHR 0x09, CHR 0x0A, CHR 0x0D])"

definition is_digit :: "char \<Rightarrow> bool" where
  "is_digit ch = (ch \<in> set ''0123456789'')"

definition json_exponent :: "string \<Rightarrow> bool" where
  "json_exponent s =
     (s = [] \<or>
      ((hd s = CHR ''e'' \<or> hd s = CHR ''E'') \<and>
       (let t = tl s;
            u = (if t \<noteq> [] \<and> (hd t = CHR ''+'' \<or> hd t = CHR ''-'') then tl t else t)
        in u \<noteq> [] \<and> list_all is_digit u)))"

definition json_fraction :: "string \<Rightarrow> bool" where
  "json_fraction s =
     (if s \<noteq> [] \<and> hd s = CHR ''.''
      then takeWhile is_digit (tl s) \<noteq> [] \<and> json_exponent (dropWhile is_digit (tl s))
      else json_exponent s)"

definition json_number :: "string \<Rightarrow> bool" where
  "json_number s =
     (let a = (if s \<noteq> [] \<and> hd s = CHR ''-'' then tl s else s);
          i = takeWhile is_digit a
      in i \<noteq> [] \<and> (i = ''0'' \<or> hd i \<noteq> CHR ''0'') \<and> json_fraction (dropWhile is_digit a))"

definition json_parse :: "string \<Rightarrow> json_view" where
  "json_parse s =
     (let t = rev (dropWhile json_ws (rev (dropWhile json_ws s)))
      in if t = ''null'' then JsonNull
         else if t = ''true'' \<or> t = ''false'' \<or> json_number t then JsonPrimitive
         else NotJson)"

section \<open>JSON web tokens\<close>

text \<open>
  A bearer token is either a string that does not parse as a JWT, or a payload signed
  with some secret. \<open>iat\<close> and \<open>exp\<close> are whole seconds; \<open>exp\<close> is optional in
  a JWT (\<open>blacklistToken\<close> tests \<open>decoded.exp\<close>).
\<close>

record jwt_payload =
  userId :: string
  iat :: nat
  exp :: "nat option"

datatype token = Opaque string | Signed string jwt_payload

datatype jwt_error = TokenExpiredError | JsonWebTokenError

text \<open>
  \<open>jwt.verify(token, secret)\<close> of the jsonwebtoken dependency: a malformed token or a
  wrong signature raises JsonWebTokenError, then an \<open>exp\<close> not after the current second
  raises TokenExpiredError.
\<close>

definition jwt_verify :: "token \<Rightarrow> string \<Rightarrow> nat \<Rightarrow> jwt_error + jwt_payload" where
  "jwt_verify tok secret now =
     (case tok of
        Opaque s \<Rightarrow> Inl JsonWebTokenError
      | Signed k p \<Rightarrow>
          if k \<noteq> secret then Inl JsonWebTokenError
          else (case exp p of
                  None \<Rightarrow> Inr p
                | Some e \<Rightarrow> if e \<le> floor_sec now then Inl TokenExpiredError else Inr p))"

text \<open>\<open>jwt.decode(token)\<close>: the payload without any check, \<open>null\<close> when malformed.\<close>

definition jwt_decode :: "token \<Rightarrow> jwt_payload option" where
  "jwt_decode tok = (case tok of Opaque s \<Rightarrow> None | Signed k p \<Rightarrow> Some p)"

text \<open>\<open>jwt.sign(payload, secret, {expiresIn})\<close> with \<open>expiresIn\<close> in seconds.\<close>

definition jwt_sign :: "string \<Rightarrow> string \<Rightarrow> nat \<Rightarrow> nat \<Rightarrow> token" where
  "jwt_sign uid secret expiresIn now =
     Signed secret \<lparr>userId = uid, iat = floor_sec now, exp = Some (floor_sec now + expiresIn)\<rparr>"

section \<open>The key-value store\<close>

text \<open>
  The Redis keys the two services build. Each constructor stands for one key template:
  \<^item> \<open>GwBlacklist t\<close> for \<open>ai-review:blacklist:${token}\<close> (gateway),
  \<^item> \<open>GwUserCache u\<close> for \<open>ai-review:user:${userId}\<close> (gateway),
  \<^item> \<open>RL p k\<close> for \<open>${prefix}${key}\<close> of the gateway's RedisStore,
  \<^item> \<open>BlacklistedToken t\<close> for \<open>blacklisted_token:${token}\<close> (user service),
  \<^item> \<open>RefreshTokenKey u\<close> for \<open>refresh_token:${userId}\<close>,
  \<^item> \<open>FailedUser u\<close> and \<open>FailedIp a\<close> for \<open>failed_attempts:user:${id}\<close> and
    \<open>failed_attempts:ip:${ip}\<close>,
  \<^item> \<open>RateLimit k w\<close> for \<open>ratelimit:${key}:${windowStart}\<close>,
  \<^item> \<open>SessionKey t\<close> for \<open>session:${sha256(token)}\<close>.
\<close>

datatype ident = UserIdent string | IpIdent string

datatype rkey =
    GwBlacklist token
  | GwUserCache string
  | RL string ident
  | BlacklistedToken token
  | RefreshTokenKey string
  | FailedUser string
  | FailedIp string
  | RateLimit ident nat
  | SessionKey token

datatype rval = VStr string | VInt int | VTok token | VSession string

record entry =
  val :: rval
  expireAt :: "nat option"

datatype cmd =
    GET rkey | SET rkey | SETEX rkey nat | DEL rkey | INCR rkey
  | EXPIRE rkey nat | EXPIRE_NaN rkey | TTL rkey | KEYS

datatype redis_error = RedisError | TypeError

text \<open>
  A client: \<open>isReady\<close> is the flag the gateway tests, \<open>db\<close> is the content, with
  expiry times in milliseconds, \<open>cmds\<close> the commands issued so far, and \<open>faults\<close>
  says which commands reject (connection lost, client closed): the command issued after
  \<open>i\<close> others rejects when \<open>faults i\<close> holds. \<open>has_setex\<close> says whether the client
  object has a method named \<open>setex\<close>, which the user service calls in \<open>logout\<close> and
  \<open>refreshToken\<close>. The client both services create (\<open>createClient\<close> with \<open>url\<close> and
  \<open>socket\<close> options, \<open>connect()\<close>, \<open>isReady\<close>, \<open>set\<close> with an \<open>EX\<close> option) is that of
  node-redis 4, which names the command \<open>setEx\<close> or \<open>SETEX\<close>, as the gateway and the
  fallback client of database.js do; older clients have \<open>setex\<close>.
\<close>

record redis_client =
  isReady :: bool
  faults :: "nat \<Rightarrow> bool"
  db :: "(rkey \<times> entry) list"
  cmds :: "cmd list"
  has_setex :: bool

definition failing :: "redis_client \<Rightarrow> bool" where
  "failing c = faults c (length (cmds c))"

definition healthy :: "redis_client \<Rightarrow> bool" where
  "healthy c = (\<forall>i. \<not> faults c i)"

definition issue :: "cmd \<Rightarrow> redis_client \<Rightarrow> redis_client" where
  "issue x c = c\<lparr>cmds := cmds c @ [x]\<rparr>"

definition live :: "nat \<Rightarrow> entry \<Rightarrow> bool" where
  "live now e = (case expireAt e of None \<Rightarrow> True | Some t \<Rightarrow> now < t)"

definition r_lookup :: "nat \<Rightarrow> (rkey \<times> entry) list \<Rightarrow> rkey \<Rightarrow> entry option" where
  "r_lookup now d k =
     (case map_of d k of
        None \<Rightarrow> None
      | Some e \<Rightarrow> if live now e then Some e else None)"

definition store :: "rkey \<Rightarrow> entry \<Rightarrow> (rkey \<times> entry) list \<Rightarrow> (rkey \<times> entry) list" where
  "store k e d = (k, e) # filter (\<lambda>p. fst p \<noteq> k) d"

definition remove :: "rkey \<Rightarrow> (rkey \<times> entry) list \<Rightarrow> (rkey \<times> entry) list" where
  "remove k d = filter (\<lambda>p. fst p \<noteq> k) d"

text \<open>What \<open>GET\<close> hands to JavaScript is a string; it is falsy only when empty.\<close>

definition truthy :: "rval option \<Rightarrow> bool" where
  "truthy r = (case r of None \<Rightarrow> False | Some (VStr s) \<Rightarrow> s \<noteq> [] | Some v \<Rightarrow> True)"

definition r_get ::
  "nat \<Rightarrow> rkey \<Rightarrow> redis_client \<Rightarrow> (redis_error + rval option) \<times> redis_client" where
  "r_get now k c =
     (if failing c then (Inl RedisError, issue (GET k) c)
      else (Inr (map_option val (r_lookup now (db c) k)), issue (GET k) c))"

text \<open>\<open>SETEX key seconds value\<close>; Redis refuses a zero expire time.\<close>

definition r_setex ::
  "nat \<Rightarrow> rkey \<Rightarrow> nat \<Rightarrow> rval \<Rightarrow> redis_client \<Rightarrow> (redis_error + unit) \<times> redis_client" where
  "r_setex now k secs v c =
     (if failing c \<or> secs = 0 then (Inl RedisError, issue (SETEX k secs) c)
      else (Inr (),
            (issue (SETEX k secs) c)
              \<lparr>db := store k \<lparr>val = v, expireAt = Some (now + secs * 1000)\<rparr> (db c)\<rparr>))"

text \<open>
  \<open>redisClient.setex(key, seconds, value)\<close>: without such a method the call throws
  before any command is sent.
\<close>

definition setex ::
  "nat \<Rightarrow> rkey \<Rightarrow> nat \<Rightarrow> rval \<Rightarrow> redis_client \<Rightarrow> (redis_error + unit) \<times> redis_client" where
  "setex now k secs v c =
     (if has_setex c then r_setex now k secs v c else (Inl TypeError, c))"

text \<open>\<open>SET key value EX seconds\<close>.\<close>

definition r_set ::
  "nat \<Rightarrow> rkey \<Rightarrow> rval \<Rightarrow> nat \<Rightarrow> redis_client \<Rightarrow> (redis_error + unit) \<times> redis_client" where
  "r_set now k v secs c =
     (if failing c \<or> secs = 0 then (Inl RedisError, issue (SET k) c)
      else (Inr (),
            (issue (SET k) c)
              \<lparr>db := store k \<lparr>val = v, expireAt = Some (now + secs * 1000)\<rparr> (db c)\<rparr>))"

definition r_del ::
  "rkey \<Rightarrow> redis_client \<Rightarrow> (redis_error + unit) \<times> redis_client" where
  "r_del k c =
     (if failing c then (Inl RedisError, issue (DEL k) c)
      else (Inr (), (issue (DEL k) c)\<lparr>db := remove k (db c)\<rparr>))"

text \<open>
  \<open>INCR\<close>: a missing (or expired) key counts from zero and the new key has no expiry;
  an existing counter keeps its expiry; a value that is not an integer is an error.
\<close>

definition r_incr ::
  "nat \<Rightarrow> rkey \<Rightarrow> redis_client \<Rightarrow> (redis_error + int) \<times> redis_client" where
  "r_incr now k c =
     (if failing c then (Inl RedisError, issue (INCR k) c)
      else (case r_lookup now (db c) k of
              None \<Rightarrow>
                (Inr 1, (issue (INCR k) c)
                          \<lparr>db := store k \<lparr>val = VInt 1, expireAt = None\<rparr> (db c)\<rparr>)
            | Some e \<Rightarrow>
                (case val e of
                   VInt n \<Rightarrow>
                     (Inr (n + 1),
                      (issue (INCR k) c)\<lparr>db := store k (e\<lparr>val := VInt (n + 1)\<rparr>) (db c)\<rparr>)
                 | _ \<Rightarrow> (Inl RedisError, issue (INCR k) c))))"

text \<open>\<open>EXPIRE key seconds\<close>: sets the expiry of a key that exists.\<close>

definition r_expire ::
  "nat \<Rightarrow> rkey \<Rightarrow> nat \<Rightarrow> redis_client \<Rightarrow> (redis_error + bool) \<times> redis_client" where
  "r_expire now k secs c =
     (if failing c then (Inl RedisError, issue (EXPIRE k secs) c)
      else (case r_lookup now (db c) k of
              None \<Rightarrow> (Inr False, issue (EXPIRE k secs) c)
            | Some e \<Rightarrow>
                (Inr True,
                 (issue (EXPIRE k secs) c)
                   \<lparr>db := store k (e\<lparr>expireAt := Some (now + secs * 1000)\<rparr>) (db c)\<rparr>)))"

text \<open>
  \<open>redisClient.expire(key, seconds)\<close> with a number the caller computed: NaN is sent
  as it is, and the server refuses a time that is not an integer.
\<close>

definition expire ::
  "nat \<Rightarrow> rkey \<Rightarrow> nat option \<Rightarrow> redis_client \<Rightarrow> (redis_error + bool) \<times> redis_client" where
  "expire now k seconds c =
     (case seconds of
        None \<Rightarrow> (Inl RedisError, issue (EXPIRE_NaN k) c)
      | Some secs \<Rightarrow> r_expire now k secs c)"

text \<open>\<open>TTL key\<close>: -2 without the key, -1 without an expiry, else the seconds left, rounded.\<close>

definition r_ttl ::
  "nat \<Rightarrow> rkey \<Rightarrow> redis_client \<Rightarrow> (redis_error + int) \<times> redis_client" where
  "r_ttl now k c =
     (if failing c then (Inl RedisError, issue (TTL k) c)
      else (case r_lookup now (db c) k of
              None \<Rightarrow> (Inr (- 2), issue (TTL k) c)
            | Some e \<Rightarrow>
                (case expireAt e of
                   None \<Rightarrow> (Inr (- 1), issue (TTL k) c)
                 | Some t \<Rightarrow> (Inr (int ((t - now + 500) div 1000)), issue (TTL k) c))))"

text \<open>\<open>KEYS session:*\<close>: the session keys that are present.\<close>

definition is_session_key :: "rkey \<Rightarrow> bool" where
  "is_session_key k = (case k of SessionKey t \<Rightarrow> True | _ \<Rightarrow> False)"

definition r_keys_session ::
  "nat \<Rightarrow> redis_client \<Rightarrow> (redis_error + rkey list) \<times> redis_client" where
  "r_keys_session now c =
     (if failing c then (Inl RedisError, issue KEYS c)
      else (Inr (map fst (filter (\<lambda>p. is_session_key (fst p) \<and> live now (snd p)) (db c))),
            issue KEYS c))"

text \<open>
  The count a key stands for at a given time: zero without the key (or after its
  expiry), the number it holds, and nothing when it holds something else.
\<close>

definition counter_value :: "nat \<Rightarrow> redis_client \<Rightarrow> rkey \<Rightarrow> int option" where
  "counter_value now c k =
     (case r_lookup now (db c) k of
        None \<Rightarrow> Some 0
      | Some e \<Rightarrow> (case val e of VInt n \<Rightarrow> Some n | _ \<Rightarrow> None))"

section \<open>Responses\<close>

text \<open>
  A middleware either calls \<open>next()\<close> or answers. \<open>Reject status error code\<close> is
  \<open>res.status(status).json({success: false, error, code})\<close>, the code absent where the
  source gives none; \<open>Success status tokens\<close> is a success answer with the tokens it
  carries.
\<close>

datatype outcome =
    Next
  | Reject nat string "string option"
  | Success nat "token list"

datatype auth_header = NoHeader | Bearer token | OtherHeader string

section \<open>API gateway: token verification and blacklist\<close>

record gw_config =
  gw_jwt_secret :: string
  gw_ttl_cache :: nat

text \<open>
  \<open>verifyToken\<close> of the gateway's auth middleware. Any exception inside the \<open>try\<close>
  is answered with 401 by the \<open>catch\<close>, with a code chosen from the error's name.
\<close>

definition verifyToken_catch :: "jwt_error \<Rightarrow> outcome" where
  "verifyToken_catch e =
     (case e of
        TokenExpiredError \<Rightarrow> Reject 401 ''Authentication failed'' (Some ''TOKEN_EXPIRED'')
      | JsonWebTokenError \<Rightarrow> Reject 401 ''Authentication failed'' (Some ''INVALID_TOKEN''))"

definition verifyToken_auth_error :: outcome where
  "verifyToken_auth_error = Reject 401 ''Authentication failed'' (Some ''AUTH_ERROR'')"

definition verifyToken_decoded ::
  "gw_config \<Rightarrow> jwt_payload \<Rightarrow> nat \<Rightarrow> redis_client \<Rightarrow> outcome \<times> redis_client" where
  "verifyToken_decoded cfg decoded now c =
     (if (case exp decoded of None \<Rightarrow> False | Some e \<Rightarrow> e < floor_sec now)
      then (Reject 401 ''Token expired'' (Some ''TOKEN_EXPIRED''), c)
      else if isReady c then
        (case r_setex now (GwUserCache (userId decoded)) (gw_ttl_cache cfg) (VStr ''user'') c of
           (Inl err, c') \<Rightarrow> (verifyToken_auth_error, c')
         | (Inr u, c') \<Rightarrow> (Next, c'))
      else (Next, c))"

definition verifyToken_jwt ::
  "gw_config \<Rightarrow> token \<Rightarrow> nat \<Rightarrow> redis_client \<Rightarrow> outcome \<times> redis_client" where
  "verifyToken_jwt cfg tok now c =
     (case jwt_verify tok (gw_jwt_secret cfg) now of
        Inl e \<Rightarrow> (verifyToken_catch e, c)
      | Inr decoded \<Rightarrow> verifyToken_decoded cfg decoded now c)"

definition verifyToken ::
  "gw_config \<Rightarrow> auth_header \<Rightarrow> nat \<Rightarrow> redis_client \<Rightarrow> outcome \<times> redis_client" where
  "verifyToken cfg authHeader now c =
     (case authHeader of
        NoHeader \<Rightarrow> (Reject 401 ''Access denied'' (Some ''NO_TOKEN''), c)
      | OtherHeader s \<Rightarrow> (Reject 401 ''Access denied'' (Some ''NO_TOKEN''), c)
      | Bearer tok \<Rightarrow>
          if isReady c then
            (case r_get now (GwBlacklist tok) c of
               (Inl err, c') \<Rightarrow> (verifyToken_auth_error, c')
             | (Inr isBlacklisted, c') \<Rightarrow>
                 if truthy isBlacklisted
                 then (Reject 401 ''Token invalid'' (Some ''TOKEN_REVOKED''), c')
                 else verifyToken_jwt cfg tok now c')
          else verifyToken_jwt cfg tok now c)"

text \<open>
  \<open>blacklistToken\<close>: only with a ready client, only for a token that decodes and has
  an \<open>exp\<close>, and only when \<open>ttl = decoded.exp - Math.floor(Date.now() / 1000)\<close> is
  positive; errors are logged and swallowed.
\<close>

definition blacklist_ttl :: "nat \<Rightarrow> nat \<Rightarrow> int" where
  "blacklist_ttl e now = int e - int (floor_sec now)"

definition blacklistToken :: "token \<Rightarrow> nat \<Rightarrow> redis_client \<Rightarrow> redis_client" where
  "blacklistToken tok now c =
     (if isReady c then
        (case jwt_decode tok of
           None \<Rightarrow> c
         | Some decoded \<Rightarrow>
             (case exp decoded of
                None \<Rightarrow> c
              | Some e \<Rightarrow>
                  if e \<noteq> 0 \<and> 0 < blacklist_ttl e now
                  then snd (r_setex now (GwBlacklist tok) (nat (blacklist_ttl e now))
                              (VStr ''true'') c)
                  else c))
      else c)"

text \<open>The gateway's \<open>POST /auth/logout\<close>: \<open>verifyToken\<close>, then \<open>blacklistToken(req.token)\<close>.\<close>

definition gw_logout ::
  "gw_config \<Rightarrow> auth_header \<Rightarrow> nat \<Rightarrow> redis_client \<Rightarrow> outcome \<times> redis_client" where
  "gw_logout cfg authHeader now c =
     (case verifyToken cfg authHeader now c of
        (Next, c') \<Rightarrow>
          (case authHeader of
             Bearer tok \<Rightarrow> (Success 200 [], blacklistToken tok now c')
           | _ \<Rightarrow> (Success 200 [], c'))
      | (r, c') \<Rightarrow> (r, c'))"

section \<open>API gateway: rate limiting\<close>

text \<open>
  \<open>RedisStore.increment(key, windowMs)\<close>. Without a ready client, and on any error of
  a store call, it reports one hit and \<open>windowMs\<close> as the time left. \<open>windowMs\<close> is
  \<open>None\<close> when the caller passes the key alone.
\<close>

record hits =
  totalHits :: int
  timeToExpire :: "int option"

definition increment_fallback :: "nat option \<Rightarrow> hits" where
  "increment_fallback windowMs = \<lparr>totalHits = 1, timeToExpire = map_option int windowMs\<rparr>"

definition increment_ttl ::
  "rkey \<Rightarrow> nat option \<Rightarrow> int \<Rightarrow> nat \<Rightarrow> redis_client \<Rightarrow> hits \<times> redis_client" where
  "increment_ttl redisKey windowMs current now c =
     (case r_ttl now redisKey c of
        (Inl err, c') \<Rightarrow> (increment_fallback windowMs, c')
      | (Inr ttl, c') \<Rightarrow> (\<lparr>totalHits = current, timeToExpire = Some (ttl * 1000)\<rparr>, c'))"

definition increment ::
  "string \<Rightarrow> ident \<Rightarrow> nat option \<Rightarrow> nat \<Rightarrow> redis_client \<Rightarrow> hits \<times> redis_client" where
  "increment prefix key windowMs now c =
     (if \<not> isReady c then (increment_fallback windowMs, c)
      else (case r_incr now (RL prefix key) c of
              (Inl err, c1) \<Rightarrow> (increment_fallback windowMs, c1)
            | (Inr current, c1) \<Rightarrow>
                if current = 1 then
                  (case expire now (RL prefix key) (js_ceil_sec windowMs) c1 of
                     (Inl err, c2) \<Rightarrow> (increment_fallback windowMs, c2)
                   | (Inr b, c2) \<Rightarrow> increment_ttl (RL prefix key) windowMs current now c2)
                else increment_ttl (RL prefix key) windowMs current now c1))"

text \<open>\<open>keyGenerator(req)\<close>: the user id of an authenticated request, else the address.\<close>

definition keyGenerator :: "string option \<Rightarrow> string \<Rightarrow> ident" where
  "keyGenerator reqUserId ip =
     (case reqUserId of
        None \<Rightarrow> IpIdent ip
      | Some u \<Rightarrow> if u \<noteq> [] then UserIdent u else IpIdent ip)"

text \<open>
  The four limiters built in rateLimiter.js, each with its store prefix, its window and
  maximum from the gateway configuration, and the code its handler answers with. The
  general limiter skips the paths \<open>/health\<close> and \<open>/metrics\<close>; the requests considered
  below are those a limiter does not skip.
\<close>

record limiter =
  prefix :: string
  windowMs :: nat
  maxRequests :: int
  limit_error :: string
  limit_code :: string

record rateLimiting =
  rl_windowMs :: nat
  rl_maxRequests :: int

definition generalLimiter :: "rateLimiting \<Rightarrow> limiter" where
  "generalLimiter cfg =
     \<lparr>prefix = ''general:'', windowMs = rl_windowMs cfg, maxRequests = rl_maxRequests cfg,
      limit_error = ''Too many requests'', limit_code = ''RATE_LIMIT_EXCEEDED''\<rparr>"

definition authLimiter :: limiter where
  "authLimiter =
     \<lparr>prefix = ''auth:'', windowMs = 15 * 60 * 1000, maxRequests = 10000,
      limit_error = ''Too many authentication attempts'',
      limit_code = ''AUTH_RATE_LIMIT_EXCEEDED''\<rparr>"

definition uploadLimiter :: limiter where
  "uploadLimiter =
     \<lparr>prefix = ''upload:'', windowMs = 60 * 1000, maxRequests = 50,
      limit_error = ''Too many uploads'', limit_code = ''UPLOAD_RATE_LIMIT_EXCEEDED''\<rparr>"

definition analysisLimiter :: limiter where
  "analysisLimiter =
     \<lparr>prefix = ''analysis:'', windowMs = 5 * 60 * 1000, maxRequests = 1000,
      limit_error = ''Too many analysis requests'',
      limit_code = ''ANALYSIS_RATE_LIMIT_EXCEEDED''\<rparr>"

text \<open>
  Modelled from the spec: the admit decision of the \<open>rateLimit(...)\<close> middleware, which
  is the express-rate-limit dependency and not under src/. It increments the counter of
  the key through the store and answers through the limiter's handler (429) when the
  post-increment value exceeds the maximum, without rolling the increment back. The
  middleware calls \<open>store.increment(key)\<close> with the key alone: it hands its options, the
  window among them, to a store's \<open>init\<close>, and \<open>RedisStore\<close> has none. Nothing else
  calls \<open>increment\<close>, so its \<open>windowMs\<close> is always \<open>undefined\<close>.
\<close>

definition verdict :: "limiter \<Rightarrow> int \<Rightarrow> outcome" where
  "verdict lim hits =
     (if maxRequests lim < hits
      then Reject 429 (limit_error lim) (Some (limit_code lim))
      else Next)"

definition admit ::
  "limiter \<Rightarrow> ident \<Rightarrow> nat \<Rightarrow> redis_client \<Rightarrow> outcome \<times> redis_client" where
  "admit lim key now c =
     (case increment (prefix lim) key None now c of
        (h, c') \<Rightarrow> (verdict lim (totalHits h), c'))"

text \<open>A run of requests for one key, arriving at the given times.\<close>

fun admit_all ::
  "limiter \<Rightarrow> ident \<Rightarrow> nat list \<Rightarrow> redis_client \<Rightarrow> outcome list \<times> redis_client" where
  "admit_all lim key [] c = ([], c)"
| "admit_all lim key (t # ts) c =
     (case admit lim key t c of
        (r, c') \<Rightarrow> (case admit_all lim key ts c' of (rs, c'') \<Rightarrow> (r # rs, c'')))"

section \<open>User service: identities\<close>

record user =
  user_id :: string
  email :: string
  username :: string
  password_hash :: string
  is_active :: bool
  password_changed_at :: "nat option"

text \<open>
  Modelled from the spec: the identity store's \<open>find_by_id\<close> and \<open>find_by_email\<close>
  (the User model is not under src/): the identity with that id or email, or not found.
\<close>

definition findById :: "user list \<Rightarrow> string \<Rightarrow> user option" where
  "findById users i = find (\<lambda>u. user_id u = i) users"

definition findByEmail :: "user list \<Rightarrow> string \<Rightarrow> user option" where
  "findByEmail users e = find (\<lambda>u. email u = e) users"

definition findByUsername :: "user list \<Rightarrow> string \<Rightarrow> user option" where
  "findByUsername users n = find (\<lambda>u. username u = n) users"

text \<open>
  Modelled from the spec: \<open>user.updateProfile(fields)\<close> of the absent User model, as
  the update of the stored identity with that id.
\<close>

definition updateProfile :: "string \<Rightarrow> (user \<Rightarrow> user) \<Rightarrow> user list \<Rightarrow> user list" where
  "updateProfile i f users = map (\<lambda>u. if user_id u = i then f u else u) users"

text \<open>
  The service's configuration and the pure helpers the handlers call: the two secrets
  (\<open>JWT_REFRESH_SECRET\<close> may be unset), the secret \<open>generateRefreshToken\<close> signs with,
  bcrypt's compare and hash, and the validators of utils/validation.js.
\<close>

record us_config =
  jwt_secret :: string
  refresh_secret :: "string option"
  refresh_sign_secret :: string
  bcrypt_compare :: "string \<Rightarrow> string \<Rightarrow> bool"
  bcrypt_hash :: "string \<Rightarrow> string"
  validatePasswordStrength :: "string \<Rightarrow> bool"
  validateEmail :: "string \<Rightarrow> string option"
  validateUsername :: "string \<Rightarrow> string option"

text \<open>
  Modelled from the spec: \<open>user.generateJWT(expiresIn)\<close> and
  \<open>user.generateRefreshToken()\<close> of the absent User model. The access token carries the
  identity, issued-at and expires-at and is signed with the shared secret, 24 hours by
  default; the refresh token is signed separately and lives 7 days.
  \<open>user.verifyPassword(password)\<close> compares the password with the stored hash, as
  \<open>changePassword\<close> does with bcrypt for the new password.
\<close>

definition generateJWT :: "us_config \<Rightarrow> user \<Rightarrow> nat \<Rightarrow> nat \<Rightarrow> token" where
  "generateJWT cfg u expiresIn now = jwt_sign (user_id u) (jwt_secret cfg) expiresIn now"

definition generateRefreshToken :: "us_config \<Rightarrow> user \<Rightarrow> nat \<Rightarrow> token" where
  "generateRefreshToken cfg u now =
     jwt_sign (user_id u) (refresh_sign_secret cfg) (7 * 24 * 60 * 60) now"

definition verifyPassword :: "us_config \<Rightarrow> user \<Rightarrow> string \<Rightarrow> bool" where
  "verifyPassword cfg u p = bcrypt_compare cfg p (password_hash u)"

section \<open>User service: authentication middleware\<close>

text \<open>
  \<open>authenticateToken\<close>. The result also carries \<open>req.user\<close> and \<open>req.token\<close> when
  the middleware calls \<open>next()\<close>. A store error is answered with 500 by the outer
  \<open>catch\<close>.
\<close>

definition authenticateToken_user ::
  "jwt_payload \<Rightarrow> token \<Rightarrow> user list \<Rightarrow> outcome \<times> (user \<times> token) option" where
  "authenticateToken_user decoded tok users =
     (case findById users (userId decoded) of
        None \<Rightarrow> (Reject 401 ''User not found'' None, None)
      | Some u \<Rightarrow>
          if \<not> is_active u then (Reject 403 ''Account disabled'' None, None)
          else if (case password_changed_at u of
                     None \<Rightarrow> False
                   | Some t \<Rightarrow> iat decoded < floor_sec t)
          then (Reject 401 ''Password changed'' (Some ''PASSWORD_CHANGED''), None)
          else (Next, Some (u, tok)))"

definition authenticateToken_jwt ::
  "us_config \<Rightarrow> token \<Rightarrow> nat \<Rightarrow> user list \<Rightarrow> outcome \<times> (user \<times> token) option" where
  "authenticateToken_jwt cfg tok now users =
     (case jwt_verify tok (jwt_secret cfg) now of
        Inl TokenExpiredError \<Rightarrow> (Reject 401 ''Token expired'' (Some ''TOKEN_EXPIRED''), None)
      | Inl JsonWebTokenError \<Rightarrow> (Reject 401 ''Invalid token'' None, None)
      | Inr decoded \<Rightarrow> authenticateToken_user decoded tok users)"

definition authenticateToken ::
  "us_config \<Rightarrow> auth_header \<Rightarrow> nat \<Rightarrow> user list \<Rightarrow> redis_client
     \<Rightarrow> (outcome \<times> (user \<times> token) option) \<times> redis_client" where
  "authenticateToken cfg authHeader now users c =
     (case (case authHeader of Bearer t \<Rightarrow> if t = Opaque [] then None else Some t
                             | _ \<Rightarrow> None) of
        None \<Rightarrow> ((Reject 401 ''Access token required'' None, None), c)
      | Some tok \<Rightarrow>
          (case r_get now (BlacklistedToken tok) c of
             (Inl err, c') \<Rightarrow> ((Reject 500 ''Authentication failed'' None, None), c')
           | (Inr isBlacklisted, c') \<Rightarrow>
               if truthy isBlacklisted
               then ((Reject 401 ''Token revoked'' None, None), c')
               else (authenticateToken_jwt cfg tok now users, c')))"

section \<open>User service: rate limiter\<close>

text \<open>
  \<open>rateLimiter(options)\<close> of the user service. The counter's key carries the start of
  the clock-aligned window, \<open>Math.floor(Date.now() / windowMs) * windowMs\<close>. The
  request is checked against the stored count first; the count is raised only when the
  response of an admitted request finishes.
\<close>

record rl_options =
  opt_windowMs :: nat
  opt_max :: int
  skipSuccessfulRequests :: bool
  skipFailedRequests :: bool

definition windowStart :: "nat \<Rightarrow> nat \<Rightarrow> nat" where
  "windowStart wMs now = (now div wMs) * wMs"

text \<open>
  \<open>requests ? parseInt(requests) : 0\<close>; \<open>None\<close> is NaN. A signed token begins with
  the letters of its encoded header and a session record with a brace.
\<close>

definition parse_requests :: "rval option \<Rightarrow> int option" where
  "parse_requests r =
     (case r of
        None \<Rightarrow> Some 0
      | Some (VInt n) \<Rightarrow> Some n
      | Some (VStr s) \<Rightarrow> (if s = [] then Some 0 else parseInt s)
      | Some (VTok (Opaque s)) \<Rightarrow> (if s = [] then Some 0 else parseInt s)
      | Some (VTok (Signed k p)) \<Rightarrow> None
      | Some (VSession u) \<Rightarrow> None)"

definition rateLimiter ::
  "rl_options \<Rightarrow> ident \<Rightarrow> nat \<Rightarrow> redis_client \<Rightarrow> outcome \<times> redis_client" where
  "rateLimiter opts key now c =
     (case r_get now (RateLimit key (windowStart (opt_windowMs opts) now)) c of
        (Inl err, c') \<Rightarrow> (Next, c')
      | (Inr requests, c') \<Rightarrow>
          if (case parse_requests requests of None \<Rightarrow> False | Some n \<Rightarrow> opt_max opts \<le> n)
          then (Reject 429 ''Rate limit exceeded'' None, c')
          else (Next, c'))"

text \<open>
  The \<open>finish\<close> listener of an admitted request: \<open>redisKey\<close> is the key computed when
  the request came in at \<open>reqTime\<close>; the listener runs at \<open>now\<close> with the response's
  status code.
\<close>

definition rateLimiter_finish ::
  "rl_options \<Rightarrow> ident \<Rightarrow> nat \<Rightarrow> nat \<Rightarrow> nat \<Rightarrow> redis_client \<Rightarrow> redis_client" where
  "rateLimiter_finish opts key reqTime statusCode now c =
     (if (skipSuccessfulRequests opts \<and> statusCode < 400)
         \<or> (skipFailedRequests opts \<and> 400 \<le> statusCode)
      then c
      else (case r_incr now (RateLimit key (windowStart (opt_windowMs opts) reqTime)) c of
              (Inl err, c1) \<Rightarrow> c1
            | (Inr n, c1) \<Rightarrow>
                snd (r_expire now (RateLimit key (windowStart (opt_windowMs opts) reqTime))
                       (ceil_sec (opt_windowMs opts)) c1)))"

section \<open>User service: failed-attempt guard\<close>

text \<open>
  The comparisons \<open>userAttempts >= 5\<close> and \<open>ipAttempts >= 10\<close> on what \<open>GET\<close>
  returned: \<open>null\<close> counts as 0, a counter as its number, anything else is NaN and
  compares false. \<open>VInt n\<close> is the decimal string of a counter.
\<close>

definition attempts_ge :: "rval option \<Rightarrow> int \<Rightarrow> bool" where
  "attempts_ge r m =
     (case r of
        None \<Rightarrow> m \<le> 0
      | Some (VInt n) \<Rightarrow> m \<le> n
      | Some (VStr s) \<Rightarrow> s = [] \<and> m \<le> 0
      | Some v \<Rightarrow> False)"

definition maxUserAttempts :: int where
  "maxUserAttempts = 5"

definition maxIpAttempts :: int where
  "maxIpAttempts = 10"

definition checkFailedAttempts_limits :: "rval option \<Rightarrow> rval option \<Rightarrow> outcome" where
  "checkFailedAttempts_limits userAttempts ipAttempts =
     (if attempts_ge userAttempts maxUserAttempts
      then Reject 429 ''Account temporarily locked'' (Some ''ACCOUNT_LOCKED'')
      else if attempts_ge ipAttempts maxIpAttempts
      then Reject 429 ''IP temporarily blocked'' (Some ''IP_BLOCKED'')
      else Next)"

definition checkFailedAttempts_ip ::
  "rval option \<Rightarrow> string \<Rightarrow> nat \<Rightarrow> redis_client \<Rightarrow> outcome \<times> redis_client" where
  "checkFailedAttempts_ip userAttempts ip now c =
     (case r_get now (FailedIp ip) c of
        (Inl err, c') \<Rightarrow> (Next, c')
      | (Inr ipAttempts, c') \<Rightarrow> (checkFailedAttempts_limits userAttempts ipAttempts, c'))"

text \<open>
  \<open>checkFailedAttempts\<close>: \<open>bodyEmail\<close> is \<open>req.body.email\<close>, absent or a string;
  \<open>!email\<close> holds for an absent and for an empty one. Any error is caught and the
  request passes.
\<close>

definition checkFailedAttempts ::
  "string option \<Rightarrow> string \<Rightarrow> nat \<Rightarrow> user list \<Rightarrow> redis_client \<Rightarrow> outcome \<times> redis_client" where
  "checkFailedAttempts bodyEmail ip now users c =
     (case bodyEmail of
        None \<Rightarrow> (Next, c)
      | Some e \<Rightarrow>
          if e = [] then (Next, c)
          else (case findByEmail users e of
                  None \<Rightarrow> checkFailedAttempts_ip None ip now c
                | Some u \<Rightarrow>
                    (case r_get now (FailedUser (user_id u)) c of
                       (Inl err, c') \<Rightarrow> (Next, c')
                     | (Inr userAttempts, c') \<Rightarrow>
                         checkFailedAttempts_ip userAttempts ip now c')))"

section \<open>User service: authentication controller\<close>

text \<open>
  \<open>incrementFailedAttempts\<close> issues the four commands together
  (\<open>Promise.all\<close>) and swallows their errors; \<open>resetFailedAttempts\<close> likewise.
\<close>

definition incrementFailedAttempts :: "string \<Rightarrow> string \<Rightarrow> nat \<Rightarrow> redis_client \<Rightarrow> redis_client" where
  "incrementFailedAttempts uid ip now c =
     snd (r_expire now (FailedIp ip) (15 * 60)
       (snd (r_incr now (FailedIp ip)
         (snd (r_expire now (FailedUser uid) (15 * 60)
           (snd (r_incr now (FailedUser uid) c)))))))"

definition resetFailedAttempts :: "string \<Rightarrow> string \<Rightarrow> redis_client \<Rightarrow> redis_client" where
  "resetFailedAttempts uid ip c = snd (r_del (FailedIp ip) (snd (r_del (FailedUser uid) c)))"

text \<open>\<open>createSession\<close>: the session is stored under the hash of the token for 24 hours.\<close>

definition createSession :: "string \<Rightarrow> token \<Rightarrow> nat \<Rightarrow> redis_client \<Rightarrow> redis_client" where
  "createSession uid tok now c =
     snd (r_set now (SessionKey tok) (VSession uid) (24 * 60 * 60) c)"

text \<open>
  The loop shared by \<open>removeUserSessions\<close> and \<open>invalidateAllUserSessions\<close>: every
  session key is read, parsed, and deleted when it belongs to the user. A store error, a
  value that does not parse and a value that parses to \<open>null\<close> (whose \<open>userId\<close> cannot
  be read) throw out of the loop; an empty value is skipped, and so is a number or a
  boolean, which has no \<open>userId\<close>.
\<close>

datatype js_error = StoreError redis_error | SyntaxError | NullProperty

definition session_text ::
  "string \<Rightarrow> (js_error + unit) option" where
  "session_text s =
     (if s = [] then None
      else (case json_parse s of
              NotJson \<Rightarrow> Some (Inl SyntaxError)
            | JsonNull \<Rightarrow> Some (Inl NullProperty)
            | JsonPrimitive \<Rightarrow> Some (Inr ())))"

text \<open>
  What the loop body makes of a value that is not a session record: \<open>None\<close> when the
  value is empty and the body is skipped, else whether parsing and reading \<open>userId\<close>
  throw.
\<close>

definition session_other :: "rval \<Rightarrow> (js_error + unit) option" where
  "session_other v =
     (case v of
        VInt n \<Rightarrow> Some (Inr ())
      | VStr s \<Rightarrow> session_text s
      | VTok (Opaque s) \<Rightarrow> session_text s
      | VTok (Signed k p) \<Rightarrow> Some (Inl SyntaxError)
      | VSession u \<Rightarrow> Some (Inr ()))"

fun sessions_loop ::
  "string \<Rightarrow> nat \<Rightarrow> rkey list \<Rightarrow> redis_client \<Rightarrow> (js_error + unit) \<times> redis_client" where
  "sessions_loop uid now [] c = (Inr (), c)"
| "sessions_loop uid now (k # ks) c =
     (case r_get now k c of
        (Inl err, c') \<Rightarrow> (Inl (StoreError err), c')
      | (Inr sessionData, c') \<Rightarrow>
          (case sessionData of
             None \<Rightarrow> sessions_loop uid now ks c'
           | Some (VSession owner) \<Rightarrow>
               if owner = uid then
                 (case r_del k c' of
                    (Inl err, c'') \<Rightarrow> (Inl (StoreError err), c'')
                  | (Inr u, c'') \<Rightarrow> sessions_loop uid now ks c'')
               else sessions_loop uid now ks c'
           | Some v \<Rightarrow>
               (case session_other v of
                  Some (Inl err) \<Rightarrow> (Inl err, c')
                | _ \<Rightarrow> sessions_loop uid now ks c')))"

definition sessions_scan ::
  "string \<Rightarrow> nat \<Rightarrow> redis_client \<Rightarrow> (js_error + unit) \<times> redis_client" where
  "sessions_scan uid now c =
     (case r_keys_session now c of
        (Inl err, c') \<Rightarrow> (Inl (StoreError err), c')
      | (Inr keys, c') \<Rightarrow> sessions_loop uid now keys c')"

text \<open>\<open>removeUserSessions\<close>: the scan, its error caught and logged.\<close>

definition removeUserSessions :: "string \<Rightarrow> nat \<Rightarrow> redis_client \<Rightarrow> redis_client" where
  "removeUserSessions uid now c = snd (sessions_scan uid now c)"

text \<open>
  \<open>invalidateAllUserSessions\<close>: the scan, then the refresh token is deleted, all inside
  one \<open>try\<close>.
\<close>

definition invalidateAllUserSessions :: "string \<Rightarrow> nat \<Rightarrow> redis_client \<Rightarrow> redis_client" where
  "invalidateAllUserSessions uid now c =
     (case sessions_scan uid now c of
        (Inl err, c') \<Rightarrow> c'
      | (Inr u, c') \<Rightarrow> snd (r_del (RefreshTokenKey uid) c'))"

record raw_body =
  raw_email :: "string option"
  raw_password :: "string option"
  raw_rememberMe :: "bool option"

record login_body =
  body_email :: string
  body_password :: string
  rememberMe :: bool

definition login_tokens ::
  "us_config \<Rightarrow> user \<Rightarrow> bool \<Rightarrow> nat \<Rightarrow> redis_client \<Rightarrow> outcome \<times> redis_client" where
  "login_tokens cfg u remember now c =
     (let tok = generateJWT cfg u (if remember then 7 * 24 * 60 * 60 else 24 * 60 * 60) now;
          refreshToken = generateRefreshToken cfg u now
      in case r_set now (RefreshTokenKey (user_id u)) (VTok refreshToken)
                (if remember then 30 * 24 * 60 * 60 else 7 * 24 * 60 * 60) c of
           (Inl err, c') \<Rightarrow> (Reject 500 ''SERVER_ERROR'' None, c')
         | (Inr x, c') \<Rightarrow>
             (Success 200 [tok, refreshToken], createSession (user_id u) tok now c'))"

text \<open>\<open>AuthController.login\<close>; \<open>updateLastLogin\<close> touches no field of the model.\<close>

definition login ::
  "us_config \<Rightarrow> login_body \<Rightarrow> string \<Rightarrow> nat \<Rightarrow> user list \<Rightarrow> redis_client
     \<Rightarrow> outcome \<times> redis_client" where
  "login cfg body ip now users c =
     (case findByEmail users (body_email body) of
        None \<Rightarrow> (Reject 401 ''USER_NOT_FOUND'' None, c)
      | Some u \<Rightarrow>
          if \<not> is_active u then (Reject 403 ''ACCOUNT_DISABLED'' None, c)
          else if \<not> verifyPassword cfg u (body_password body)
          then (Reject 401 ''INCORRECT_PASSWORD'' None,
                incrementFailedAttempts (user_id u) ip now c)
          else login_tokens cfg u (rememberMe body) now
                 (resetFailedAttempts (user_id u) ip c))"

text \<open>
  \<open>validate(loginSchema)\<close>: \<open>None\<close> when the body is refused (400), else the validated
  body that replaces \<open>req.body\<close>. The email is required and not empty, is put in lower
  case and has to be an email address (the syntax check of the Joi dependency,
  \<open>is_email\<close>); the password is required and not empty; \<open>rememberMe\<close> defaults to
  false.
\<close>

definition loginSchema :: "(string \<Rightarrow> bool) \<Rightarrow> raw_body \<Rightarrow> login_body option" where
  "loginSchema is_email raw =
     (case (raw_email raw, raw_password raw) of
        (Some e, Some p) \<Rightarrow>
          if e = [] \<or> \<not> is_email (toLowerCase e) \<or> p = [] then None
          else Some \<lparr>body_email = toLowerCase e, body_password = p,
                     rememberMe = (raw_rememberMe raw = Some True)\<rparr>
      | _ \<Rightarrow> None)"

text \<open>
  The stages of \<open>POST /auth/login\<close> after its rate limiter: the failed-attempt guard on
  the raw body, the schema validation (\<open>validate\<close>, which the route instantiates with
  \<open>loginSchema\<close>), then the controller on the validated body.
\<close>

definition login_route ::
  "us_config \<Rightarrow> (raw_body \<Rightarrow> login_body option) \<Rightarrow> raw_body \<Rightarrow> string \<Rightarrow> nat
     \<Rightarrow> user list \<Rightarrow> redis_client \<Rightarrow> outcome \<times> redis_client" where
  "login_route cfg validate body ip now users c =
     (case checkFailedAttempts (raw_email body) ip now users c of
        (Next, c') \<Rightarrow>
          (case validate body of
             None \<Rightarrow> (Reject 400 ''Validation failed'' (Some ''VALIDATION_ERROR''), c')
           | Some body' \<Rightarrow> login cfg body' ip now users c')
      | (r, c') \<Rightarrow> (r, c'))"

text \<open>
  A run of login attempts with one body from one address, at the given times; and what
  it means for the times to follow a first one with less than the lockout time of 15
  minutes between neighbours.
\<close>

fun login_attempts ::
  "us_config \<Rightarrow> (raw_body \<Rightarrow> login_body option) \<Rightarrow> raw_body \<Rightarrow> string \<Rightarrow> nat list
     \<Rightarrow> user list \<Rightarrow> redis_client \<Rightarrow> outcome list \<times> redis_client" where
  "login_attempts cfg validate body ip [] users c = ([], c)"
| "login_attempts cfg validate body ip (t # ts) users c =
     (case login_route cfg validate body ip t users c of
        (r, c') \<Rightarrow>
          (case login_attempts cfg validate body ip ts users c' of
             (rs, c'') \<Rightarrow> (r # rs, c'')))"

fun spaced :: "nat \<Rightarrow> nat list \<Rightarrow> bool" where
  "spaced t [] = True"
| "spaced t (t' # ts) = (t \<le> t' \<and> t' < t + 15 * 60 * 1000 \<and> spaced t' ts)"

text \<open>\<open>AuthController.logout\<close>, for the \<open>req.user\<close> and \<open>req.token\<close> of the request.\<close>

definition logout :: "user \<Rightarrow> token \<Rightarrow> nat \<Rightarrow> redis_client \<Rightarrow> outcome \<times> redis_client" where
  "logout u tok now c =
     (case r_del (RefreshTokenKey (user_id u)) c of
        (Inl err, c1) \<Rightarrow> (Reject 500 ''Logout failed'' None, c1)
      | (Inr x, c1) \<Rightarrow>
          (case setex now (BlacklistedToken tok) (24 * 60 * 60) (VStr ''true'') c1 of
             (Inl err, c2) \<Rightarrow> (Reject 500 ''Logout failed'' None, c2)
           | (Inr y, c2) \<Rightarrow> (Success 200 [], removeUserSessions (user_id u) now c2)))"

text \<open>\<open>POST /auth/logout\<close>: \<open>authenticateToken\<close>, then the controller.\<close>

definition logout_route ::
  "us_config \<Rightarrow> auth_header \<Rightarrow> nat \<Rightarrow> user list \<Rightarrow> redis_client \<Rightarrow> outcome \<times> redis_client" where
  "logout_route cfg authHeader now users c =
     (case authenticateToken cfg authHeader now users c of
        ((Next, Some (u, tok)), c') \<Rightarrow> logout u tok now c'
      | ((r, x), c') \<Rightarrow> (r, c'))"

text \<open>
  \<open>AuthController.refreshToken\<close>; \<open>bodyToken\<close> is \<open>req.body.refreshToken\<close>. The
  stored value has to be the very token presented.
\<close>

definition refreshToken_issue ::
  "us_config \<Rightarrow> user \<Rightarrow> nat \<Rightarrow> redis_client \<Rightarrow> outcome \<times> redis_client" where
  "refreshToken_issue cfg u now c =
     (let newAccessToken = generateJWT cfg u (24 * 60 * 60) now;
          newRefreshToken = generateRefreshToken cfg u now
      in case setex now (RefreshTokenKey (user_id u)) (7 * 24 * 60 * 60)
                (VTok newRefreshToken) c of
           (Inl err, c') \<Rightarrow> (Reject 500 ''Token refresh failed'' None, c')
         | (Inr x, c') \<Rightarrow> (Success 200 [newAccessToken, newRefreshToken], c'))"

definition refreshToken_stored ::
  "us_config \<Rightarrow> token \<Rightarrow> jwt_payload \<Rightarrow> nat \<Rightarrow> user list \<Rightarrow> redis_client
     \<Rightarrow> outcome \<times> redis_client" where
  "refreshToken_stored cfg tok decoded now users c =
     (case r_get now (RefreshTokenKey (userId decoded)) c of
        (Inl err, c') \<Rightarrow> (Reject 500 ''Token refresh failed'' None, c')
      | (Inr storedToken, c') \<Rightarrow>
          if \<not> truthy storedToken \<or> storedToken \<noteq> Some (VTok tok)
          then (Reject 401 ''Invalid refresh token'' None, c')
          else (case findById users (userId decoded) of
                  None \<Rightarrow> (Reject 401 ''User not found or inactive'' None, c')
                | Some u \<Rightarrow>
                    if \<not> is_active u
                    then (Reject 401 ''User not found or inactive'' None, c')
                    else refreshToken_issue cfg u now c'))"

definition refreshToken ::
  "us_config \<Rightarrow> token option \<Rightarrow> nat \<Rightarrow> user list \<Rightarrow> redis_client \<Rightarrow> outcome \<times> redis_client" where
  "refreshToken cfg bodyToken now users c =
     (case bodyToken of
        None \<Rightarrow> (Reject 400 ''Missing refresh token'' None, c)
      | Some tok \<Rightarrow>
          if tok = Opaque [] then (Reject 400 ''Missing refresh token'' None, c)
          else (case refresh_secret cfg of
                  None \<Rightarrow> (Reject 401 ''Invalid refresh token'' None, c)
                | Some secret \<Rightarrow>
                    (case jwt_verify tok secret now of
                       Inl e \<Rightarrow> (Reject 401 ''Invalid refresh token'' None, c)
                     | Inr decoded \<Rightarrow> refreshToken_stored cfg tok decoded now users c)))"

text \<open>
  Modelled from the spec: \<open>User.create\<close> of the absent User model, used by
  \<open>AuthController.register\<close>. It adds an active identity, with no password change yet,
  under the id the database gives it (\<open>newId\<close>).
\<close>

record register_body =
  reg_email :: string
  reg_username :: string
  reg_password :: string

definition create :: "us_config \<Rightarrow> string \<Rightarrow> string \<Rightarrow> string \<Rightarrow> string \<Rightarrow> user" where
  "create cfg newId e n p =
     \<lparr>user_id = newId, email = e, username = n, password_hash = bcrypt_hash cfg p,
      is_active = True, password_changed_at = None\<rparr>"

definition register_create ::
  "us_config \<Rightarrow> user \<Rightarrow> nat \<Rightarrow> user list \<Rightarrow> redis_client
     \<Rightarrow> outcome \<times> user list \<times> redis_client" where
  "register_create cfg u now users c =
     (let tok = generateJWT cfg u (24 * 60 * 60) now;
          refreshToken = generateRefreshToken cfg u now
      in case r_set now (RefreshTokenKey (user_id u)) (VTok refreshToken)
                (7 * 24 * 60 * 60) c of
           (Inl err, c') \<Rightarrow> (Reject 500 ''Registration failed'' None, users @ [u], c')
         | (Inr x, c') \<Rightarrow> (Success 201 [tok, refreshToken], users @ [u], c'))"

definition register ::
  "us_config \<Rightarrow> register_body \<Rightarrow> string \<Rightarrow> nat \<Rightarrow> user list \<Rightarrow> redis_client
     \<Rightarrow> outcome \<times> user list \<times> redis_client" where
  "register cfg body newId now users c =
     (case validateEmail cfg (reg_email body) of
        None \<Rightarrow> (Reject 400 ''Invalid email format'' None, users, c)
      | Some e \<Rightarrow>
          (case validateUsername cfg (reg_username body) of
             None \<Rightarrow> (Reject 400 ''Invalid username format'' None, users, c)
           | Some n \<Rightarrow>
               if \<not> validatePasswordStrength cfg (reg_password body)
               then (Reject 400 ''Password does not meet security requirements'' None, users, c)
               else if findByEmail users e \<noteq> None
               then (Reject 409 ''User already exists'' None, users, c)
               else if findByUsername users n \<noteq> None
               then (Reject 409 ''Username taken'' None, users, c)
               else register_create cfg (create cfg newId e n (reg_password body))
                      now users c))"

section \<open>User service: password change\<close>

text \<open>
  \<open>UserController.changePassword\<close>, for the authenticated \<open>req.user.id\<close>. Its last
  step calls \<open>this.invalidateAllUserSessions\<close>. Unlike AuthController, this controller
  does not bind its methods, and routes/users.js hands \<open>userController.changePassword\<close>
  to the router as a plain function: called that way \<open>this\<close> is undefined, the call
  throws after the new password has been saved, and the \<open>catch\<close> answers 500.
  \<open>this_bound\<close> says whether the method runs with its controller as \<open>this\<close>.
\<close>

definition changePassword ::
  "bool \<Rightarrow> us_config \<Rightarrow> string \<Rightarrow> string \<Rightarrow> string \<Rightarrow> nat \<Rightarrow> user list \<Rightarrow> redis_client
     \<Rightarrow> outcome \<times> user list \<times> redis_client" where
  "changePassword this_bound cfg uid currentPassword newPassword now users c =
     (case findById users uid of
        None \<Rightarrow> (Reject 404 ''User not found'' None, users, c)
      | Some u \<Rightarrow>
          if \<not> verifyPassword cfg u currentPassword
          then (Reject 400 ''Invalid current password'' None, users, c)
          else if \<not> validatePasswordStrength cfg newPassword
          then (Reject 400 ''Password does not meet security requirements'' None, users, c)
          else if bcrypt_compare cfg newPassword (password_hash u)
          then (Reject 400 ''Same password'' None, users, c)
          else if this_bound
          then (Success 200 [],
                updateProfile uid
                  (\<lambda>v. v\<lparr>password_hash := bcrypt_hash cfg newPassword,
                         password_changed_at := Some now\<rparr>) users,
                invalidateAllUserSessions uid now c)
          else (Reject 500 ''Password change failed'' None,
                updateProfile uid
                  (\<lambda>v. v\<lparr>password_hash := bcrypt_hash cfg newPassword,
                         password_changed_at := Some now\<rparr>) users,
                c))"

section \<open>Example data\<close>

text \<open>
  A configuration, an identity and an empty, working store for concrete runs, behind the
  client the services create.
\<close>

definition demo_config :: us_config where
  "demo_config =
     \<lparr>jwt_secret = ''access-secret'', refresh_secret = Some ''refresh-secret'',
      refresh_sign_secret = ''refresh-secret'',
      bcrypt_compare = (\<lambda>p h. h = p), bcrypt_hash = (\<lambda>p. p),
      validatePasswordStrength = (\<lambda>p. True),
      validateEmail = Some, validateUsername = Some\<rparr>"

definition alice :: user where
  "alice =
     \<lparr>user_id = ''1'', email = ''alice@example.com'', username = ''alice'',
      password_hash = ''Secret123!'', is_active = True, password_changed_at = None\<rparr>"

definition empty_client :: redis_client where
  "empty_client = \<lparr>isReady = True, faults = (\<lambda>i. False), db = [], cmds = [], has_setex = False\<rparr>"

text \<open>The same store behind a client that does have a \<open>setex\<close> method.\<close>

definition setex_client :: redis_client where
  "setex_client = empty_client\<lparr>has_setex := True\<rparr>"

definition alice_login :: "bool \<Rightarrow> login_body" where
  "alice_login remember =
     \<lparr>body_email = ''alice@example.com'', body_password = ''Secret123!'',
      rememberMe = remember\<rparr>"

definition bob :: user where
  "bob =
     \<lparr>user_id = ''2'', email = ''bob@example.com'', username = ''bob'',
      password_hash = ''Hunter2bob'', is_active = True, password_changed_at = None\<rparr>"

text \<open>A stand-in for the email syntax check, and the login schema with it.\<close>

definition demo_is_email :: "string \<Rightarrow> bool" where
  "demo_is_email e = (CHR ''@'' \<in> set e)"

definition demo_validate :: "raw_body \<Rightarrow> login_body option" where
  "demo_validate = loginSchema demo_is_email"

definition attempt :: "string \<Rightarrow> string \<Rightarrow> raw_body" where
  "attempt e p = \<lparr>raw_email = Some e, raw_password = Some p, raw_rememberMe = None\<rparr>"

text \<open>
  The store after five wrong passwords for Alice from 10.0.0.1, the last one at 4 s,
  and a store in which that address has ten failures against unknown accounts.
\<close>

definition locked_client :: redis_client where
  "locked_client =
     \<lparr>isReady = True, faults = (\<lambda>i. False),
      db = [(FailedIp ''10.0.0.1'', \<lparr>val = VInt 5, expireAt = Some 904000\<rparr>),
            (FailedUser ''1'', \<lparr>val = VInt 5, expireAt = Some 904000\<rparr>)],
      cmds = [], has_setex = False\<rparr>"

definition blocked_ip_client :: redis_client where
  "blocked_ip_client =
     \<lparr>isReady = True, faults = (\<lambda>i. False),
      db = [(FailedIp ''10.0.0.1'', \<lparr>val = VInt 10, expireAt = Some 904000\<rparr>)],
      cmds = [], has_setex = False\<rparr>"

definition carol_body :: register_body where
  "carol_body =
     \<lparr>reg_email = ''carol@example.com'', reg_username = ''carol'',
      reg_password = ''Pass123word''\<rparr>"

definition demo_gw :: gw_config where
  "demo_gw = \<lparr>gw_jwt_secret = ''access-secret'', gw_ttl_cache = 60 * 60\<rparr>"

text \<open>
  The gateway's upload counter of 10.0.0.1 at its maximum, half a minute into the
  window; the login route's limiter of the user service (10 per 15 minutes) and its
  counter at the maximum.
\<close>

definition full_upload :: redis_client where
  "full_upload =
     \<lparr>isReady = True, faults = (\<lambda>i. False),
      db = [(RL ''upload:'' (IpIdent ''10.0.0.1''), \<lparr>val = VInt 50, expireAt = Some 60000\<rparr>)],
      cmds = [], has_setex = False\<rparr>"

definition login_limit :: rl_options where
  "login_limit =
     \<lparr>opt_windowMs = 15 * 60 * 1000, opt_max = 10, skipSuccessfulRequests = False,
      skipFailedRequests = False\<rparr>"

definition full_login :: redis_client where
  "full_login =
     \<lparr>isReady = True, faults = (\<lambda>i. False),
      db = [(RateLimit (IpIdent ''10.0.0.1'') 0, \<lparr>val = VInt 10, expireAt = Some 900000\<rparr>)],
      cmds = [], has_setex = False\<rparr>"

text \<open>A short test window: two requests per two seconds.\<close>

definition test_limiter :: limiter where
  "test_limiter =
     \<lparr>prefix = ''test:'', windowMs = 2000, maxRequests = 2,
      limit_error = ''Too many requests'', limit_code = ''RATE_LIMIT_EXCEEDED''\<rparr>"

definition minute_limit :: rl_options where
  "minute_limit =
     \<lparr>opt_windowMs = 60 * 1000, opt_max = 30, skipSuccessfulRequests = False,
      skipFailedRequests = False\<rparr>"

section \<open>Facts about the store\<close>

lemma map_of_store: "map_of (store k e d) k' = (if k' = k then Some e else map_of d k')"
  by (induction d) (auto simp: store_def)

lemma map_of_remove: "map_of (remove k d) k' = (if k' = k then None else map_of d k')"
  by (induction d) (auto simp: remove_def)

lemma r_lookup_store:
  "r_lookup now (store k e d) k' =
     (if k' = k then (if live now e then Some e else None) else r_lookup now d k')"
  by (simp add: r_lookup_def map_of_store)

lemma r_lookup_remove:
  "r_lookup now (remove k d) k' = (if k' = k then None else r_lookup now d k')"
  by (simp add: r_lookup_def map_of_remove)

lemma healthy_not_failing: "healthy c \<Longrightarrow> \<not> failing c"
  by (simp add: healthy_def failing_def)

lemma healthy_issue [simp]: "healthy (issue x c) = healthy c"
  by (simp add: healthy_def issue_def)

lemma healthy_db_update [simp]: "healthy (c\<lparr>db := d\<rparr>) = healthy c"
  by (simp add: healthy_def)

lemma r_incr_after [simp]:
  "cmds (snd (r_incr now k c)) = cmds c @ [INCR k]"
  "faults (snd (r_incr now k c)) = faults c"
  "isReady (snd (r_incr now k c)) = isReady c"
  by (simp_all add: r_incr_def issue_def split: option.splits rval.splits)

lemma r_expire_after [simp]:
  "cmds (snd (r_expire now k s c)) = cmds c @ [EXPIRE k s]"
  "faults (snd (r_expire now k s c)) = faults c"
  "isReady (snd (r_expire now k s c)) = isReady c"
  by (simp_all add: r_expire_def issue_def split: option.splits)

lemma r_ttl_after [simp]: "snd (r_ttl now k c) = issue (TTL k) c"
  by (simp add: r_ttl_def split: option.splits)

lemma r_get_after [simp]: "snd (r_get now k c) = issue (GET k) c"
  by (simp add: r_get_def)

lemma entry_collapse: "e\<lparr>val := v, expireAt := x\<rparr> = \<lparr>val = v, expireAt = x\<rparr>"
  by (cases e) simp

lemma r_lookup_live: "r_lookup now d k = Some e \<Longrightarrow> live now e"
  by (auto simp: r_lookup_def split: option.splits if_splits)

lemma counter_value_entry:
  "map_of (db c) k = Some \<lparr>val = VInt n, expireAt = Some x\<rparr>
     \<Longrightarrow> counter_value t c k = (if t < x then Some n else Some 0)"
  by (simp add: counter_value_def r_lookup_def live_def)

lemma r_incr_healthy:
  assumes "healthy c" "counter_value t c k = Some n"
  shows "\<exists>e. r_lookup t (db (snd (r_incr t k c))) k = Some e \<and> val e = VInt (n + 1)"
    and "healthy (snd (r_incr t k c))"
    and "k' \<noteq> k \<Longrightarrow> map_of (db (snd (r_incr t k c))) k' = map_of (db c) k'"
proof -
  have nf: "\<not> failing c" using assms(1) by (rule healthy_not_failing)
  show "\<exists>e. r_lookup t (db (snd (r_incr t k c))) k = Some e \<and> val e = VInt (n + 1)"
  proof (cases "r_lookup t (db c) k")
    case None
    then show ?thesis using nf assms(2)
      by (simp add: r_incr_def counter_value_def r_lookup_store live_def)
  next
    case (Some e)
    then have l: "live t e" by (rule r_lookup_live)
    from Some assms(2) have v: "val e = VInt n"
      by (simp add: counter_value_def split: rval.splits)
    show ?thesis using nf Some v l
      by (simp add: r_incr_def r_lookup_store live_def)
  qed
  show "healthy (snd (r_incr t k c))" using assms(1)
    by (simp add: healthy_def)
  show "map_of (db (snd (r_incr t k c))) k' = map_of (db c) k'" if "k' \<noteq> k"
    using that nf
    by (simp add: r_incr_def map_of_store issue_def split: option.splits rval.splits)
qed

lemma r_expire_healthy:
  assumes "healthy c" "r_lookup t (db c) k = Some e"
  shows "map_of (db (snd (r_expire t k s c))) k = Some (e\<lparr>expireAt := Some (t + s * 1000)\<rparr>)"
    and "healthy (snd (r_expire t k s c))"
    and "k' \<noteq> k \<Longrightarrow> map_of (db (snd (r_expire t k s c))) k' = map_of (db c) k'"
proof -
  have nf: "\<not> failing c" using assms(1) by (rule healthy_not_failing)
  show "map_of (db (snd (r_expire t k s c))) k = Some (e\<lparr>expireAt := Some (t + s * 1000)\<rparr>)"
    using nf assms(2) by (simp add: r_expire_def map_of_store)
  show "healthy (snd (r_expire t k s c))" using assms(1) by (simp add: healthy_def)
  show "map_of (db (snd (r_expire t k s c))) k' = map_of (db c) k'" if "k' \<noteq> k"
    using that nf assms(2) by (simp add: r_expire_def map_of_store)
qed

lemma counter_value_cong:
  "map_of (db c') k = map_of (db c) k \<Longrightarrow> counter_value t c' k = counter_value t c k"
  by (simp add: counter_value_def r_lookup_def)

lemmas store_ops =
  r_get_def r_set_def r_setex_def setex_def r_del_def r_incr_def r_expire_def r_ttl_def
  r_keys_session_def issue_def r_lookup_def live_def store_def remove_def truthy_def
  is_session_key_def failing_def

lemmas us_defs =
  Let_def generateJWT_def jwt_sign_def floor_sec_def login_def login_tokens_def
  findByEmail_def findById_def verifyPassword_def resetFailedAttempts_def
  createSession_def generateRefreshToken_def logout_route_def logout_def
  authenticateToken_def authenticateToken_jwt_def authenticateToken_user_def
  jwt_verify_def removeUserSessions_def sessions_scan_def

lemmas demo_defs =
  demo_config_def alice_def alice_login_def empty_client_def bob_def demo_validate_def
  attempt_def locked_client_def blocked_ip_client_def setex_client_def

section \<open>Revocation at the gateway\<close>

text \<open>
  \<open>blacklistToken\<close> stores the marker with a time-to-live of \<open>exp - floor(now / 1000)\<close>
  seconds, the token's remaining lifetime.
\<close>

lemma blacklistToken_entry:
  assumes "isReady c" "\<not> failing c" "jwt_decode tok = Some p" "exp p = Some e"
    and "floor_sec now < e"
  shows "map_of (db (blacklistToken tok now c)) (GwBlacklist tok)
           = Some \<lparr>val = VStr ''true'', expireAt = Some (now + (e - floor_sec now) * 1000)\<rparr>"
  using assms
  by (simp add: blacklistToken_def blacklist_ttl_def r_setex_def map_of_store nat_diff_distrib')

lemma verifyToken_blacklisted:
  assumes "isReady c" "\<not> failing c"
    and "r_lookup now (db c) (GwBlacklist tok) = Some \<lparr>val = VStr ''true'', expireAt = x\<rparr>"
  shows "fst (verifyToken cfg (Bearer tok) now c)
           = Reject 401 ''Token invalid'' (Some ''TOKEN_REVOKED'')"
  using assms by (simp add: verifyToken_def r_get_def truthy_def)

text \<open>
  With a ready, working store, a token the gateway blacklisted is answered with
  TOKEN_REVOKED in every second before its expiry.
\<close>

lemma gw_revoked_until_expiry:
  assumes "isReady c" "\<not> failing c" "jwt_decode tok = Some p" "exp p = Some e"
    and "floor_sec t1 < e" "floor_sec t2 < e"
    and c2: "isReady c2" "\<not> failing c2" "db c2 = db (blacklistToken tok t1 c)"
  shows "fst (verifyToken cfg (Bearer tok) t2 c2)
           = Reject 401 ''Token invalid'' (Some ''TOKEN_REVOKED'')"
proof -
  have "t2 < e * 1000" using assms(6) by (simp add: floor_sec_def)
  moreover have "e * 1000 \<le> t1 + (e - floor_sec t1) * 1000"
    using assms(5) unfolding floor_sec_def by (simp add: diff_mult_distrib)
  ultimately have "t2 < t1 + (e - floor_sec t1) * 1000" by linarith
  then have "r_lookup t2 (db c2) (GwBlacklist tok)
      = Some \<lparr>val = VStr ''true'', expireAt = Some (t1 + (e - floor_sec t1) * 1000)\<rparr>"
    using blacklistToken_entry[OF assms(1-5)] c2 by (simp add: r_lookup_def live_def)
  then show ?thesis using c2 by (rule_tac verifyToken_blacklisted) auto
qed

section \<open>Revocation in the user service\<close>

text \<open>
  Claim C1 (a token blacklisted by logout is refused as revoked at every verification
  before its natural expiry), run on the user service. Alice logs in with "remember me"
  at time 0 and gets a token that lives 7 days; she logs out one second later.

  With the client the service creates, \<open>redisClient.setex\<close> is not a function: the
  logout deletes the refresh token, throws, and answers 500 without having stored a
  revocation marker, and the token is let through one second later.

  With a client that has \<open>setex\<close>, the logout succeeds and stores the marker for 24
  hours. A verification right after the logout is refused as revoked; a verification 24
  hours and one second after the login finds the marker gone, while the token still
  verifies, and lets the request through.
\<close>

theorem token_accepted_after_logout:
  "(let tok = generateJWT demo_config alice (7 * 24 * 60 * 60) 0;
        c1 = snd (login demo_config (alice_login True) ''10.0.0.1'' 0 [alice] empty_client);
        c2 = snd (logout_route demo_config (Bearer tok) 1000 [alice] c1)
    in fst (login demo_config (alice_login True) ''10.0.0.1'' 0 [alice] empty_client)
         = Success 200 [tok, generateRefreshToken demo_config alice 0]
     \<and> fst (logout_route demo_config (Bearer tok) 1000 [alice] c1)
         = Reject 500 ''Logout failed'' None
     \<and> map_of (db c2) (BlacklistedToken tok) = None
     \<and> (\<exists>p. jwt_verify tok (jwt_secret demo_config) 2000 = Inr p)
     \<and> fst (fst (authenticateToken demo_config (Bearer tok) 2000 [alice] c2)) = Next)
   \<and> (let tok = generateJWT demo_config alice (7 * 24 * 60 * 60) 0;
        c1 = snd (login demo_config (alice_login True) ''10.0.0.1'' 0 [alice] setex_client);
        c2 = snd (logout_route demo_config (Bearer tok) 1000 [alice] c1)
    in fst (login demo_config (alice_login True) ''10.0.0.1'' 0 [alice] setex_client)
         = Success 200 [tok, generateRefreshToken demo_config alice 0]
     \<and> fst (logout_route demo_config (Bearer tok) 1000 [alice] c1) = Success 200 []
     \<and> fst (fst (authenticateToken demo_config (Bearer tok) 2000 [alice] c2))
         = Reject 401 ''Token revoked'' None
     \<and> (\<exists>p. jwt_verify tok (jwt_secret demo_config) 86401000 = Inr p)
     \<and> fst (fst (authenticateToken demo_config (Bearer tok) 86401000 [alice] c2)) = Next)"
  by (simp add: us_defs store_ops demo_defs)

text \<open>
  Claim C3 (a revocation entry's time-to-live equals the remaining lifetime of the token
  it revokes), run on the user service's logout. With a client that has \<open>setex\<close>, a
  24-hour token and a 7-day token, both issued at time 0 and revoked one hour later, get
  the same entry, expiring 24 hours after the logout: one hour after the first token has
  expired, and almost six days before the second one does. With the client the service
  creates the logout answers 500 and there is no entry at all.
\<close>

theorem logout_entry_ttl_not_remaining_lifetime:
  "(let short = generateJWT demo_config alice (24 * 60 * 60) 0;
        long = generateJWT demo_config alice (7 * 24 * 60 * 60) 0;
        c1 = snd (logout alice short 3600000 setex_client);
        c2 = snd (logout alice long 3600000 setex_client)
    in jwt_decode short = Some \<lparr>userId = ''1'', iat = 0, exp = Some 86400\<rparr>
     \<and> map_of (db c1) (BlacklistedToken short)
         = Some \<lparr>val = VStr ''true'', expireAt = Some (3600000 + 86400 * 1000)\<rparr>
     \<and> jwt_decode long = Some \<lparr>userId = ''1'', iat = 0, exp = Some 604800\<rparr>
     \<and> map_of (db c2) (BlacklistedToken long)
         = Some \<lparr>val = VStr ''true'', expireAt = Some (3600000 + 86400 * 1000)\<rparr>)
   \<and> (let long = generateJWT demo_config alice (7 * 24 * 60 * 60) 0;
        r = logout alice long 3600000 empty_client
    in fst r = Reject 500 ''Logout failed'' None
     \<and> map_of (db (snd r)) (BlacklistedToken long) = None)"
  by (simp add: us_defs store_ops demo_defs jwt_decode_def)

section \<open>Password change and tokens issued before it\<close>

lemma find_user_id: "find (\<lambda>u. user_id u = i) users = Some u \<Longrightarrow> user_id u = i"
  by (induction users) (auto split: if_splits)

lemma findById_user_id: "findById users i = Some u \<Longrightarrow> user_id u = i"
  unfolding findById_def by (rule find_user_id)

lemma findById_updateProfile:
  assumes "\<And>v. user_id (f v) = user_id v"
  shows "findById (updateProfile i f users) i = map_option f (findById users i)"
  unfolding findById_def updateProfile_def
  by (induction users) (auto simp: assms)

lemma changePassword_saved:
  assumes "changePassword b cfg uid cur new t1 users c = (r, users', c')"
    and "r = Success 200 [] \<or> r = Reject 500 ''Password change failed'' None"
  shows "users' = updateProfile uid
           (\<lambda>v. v\<lparr>password_hash := bcrypt_hash cfg new, password_changed_at := Some t1\<rparr>) users"
  using assms by (auto simp: changePassword_def split: option.splits if_splits)

lemma stale_user:
  assumes "findById users uid = Some u" and "is_active u"
    and "changePassword b cfg uid cur new t1 users c = (r, users', c')"
    and "r = Success 200 [] \<or> r = Reject 500 ''Password change failed'' None"
    and "floor_sec t0 < floor_sec t1" and "iat p = floor_sec t0" and "userId p = uid"
  shows "authenticateToken_user p tok users'
           = (Reject 401 ''Password changed'' (Some ''PASSWORD_CHANGED''), None)"
proof -
  have "findById users' uid
          = Some (u\<lparr>password_hash := bcrypt_hash cfg new, password_changed_at := Some t1\<rparr>)"
    using changePassword_saved[OF assms(3,4)] assms(1)
    by (simp add: findById_updateProfile)
  then show ?thesis using assms(2,5,6,7) by (simp add: authenticateToken_user_def)
qed

lemmas pw_defs = changePassword_def updateProfile_def invalidateAllUserSessions_def

text \<open>
  Claim C2 as stated fails in two ways. A token issued at 1.0 s survives a password
  change at 1.5 s: both fall in the same clock second, the comparison is on whole
  seconds and strict, and the verification at 2.0 s lets the request through. This is
  so whether the handler runs as the router calls it (it saves the new password and
  answers 500) or with its controller as \<open>this\<close> (it answers 200). And a token issued at
  0 whose password changed at 5 s is refused at 24 h as expired, not as stale: the
  expiry check comes first.
\<close>

theorem same_second_password_change_keeps_token:
  "(let tok = generateJWT demo_config alice (24 * 60 * 60) 1000;
        r = changePassword False demo_config ''1'' ''Secret123!'' ''NewSecret456!'' 1500
              [alice] empty_client
    in fst r = Reject 500 ''Password change failed'' None
     \<and> map_option password_changed_at (findById (fst (snd r)) ''1'') = Some (Some 1500)
     \<and> fst (fst (authenticateToken demo_config (Bearer tok) 2000 (fst (snd r)) (snd (snd r))))
         = Next)
   \<and> (let tok = generateJWT demo_config alice (24 * 60 * 60) 1000;
        r = changePassword True demo_config ''1'' ''Secret123!'' ''NewSecret456!'' 1500
              [alice] empty_client
    in fst r = Success 200 []
     \<and> map_option password_changed_at (findById (fst (snd r)) ''1'') = Some (Some 1500)
     \<and> fst (fst (authenticateToken demo_config (Bearer tok) 2000 (fst (snd r)) (snd (snd r))))
         = Next)
   \<and> (let tok = generateJWT demo_config alice (24 * 60 * 60) 0;
        r = changePassword False demo_config ''1'' ''Secret123!'' ''NewSecret456!'' 5000
              [alice] empty_client
    in fst r = Reject 500 ''Password change failed'' None
     \<and> map_option password_changed_at (findById (fst (snd r)) ''1'') = Some (Some 5000)
     \<and> fst (fst (authenticateToken demo_config (Bearer tok) 86400000 (fst (snd r))
                    (snd (snd r))))
         = Reject 401 ''Token expired'' (Some ''TOKEN_EXPIRED''))"
  by (simp add: us_defs store_ops demo_defs pw_defs)

text \<open>
  Claim C2, amended: a token issued at \<open>t0\<close> to an identity whose password is changed
  at \<open>t1\<close> in a later clock second (the handler saved the new password: it answered
  200, or 500 after the save when called without its controller) is never let through
  by \<open>authenticateToken\<close> afterwards, whatever the time and the store; and whenever the earlier checks pass (the
  store answers, the token is not blacklisted and not expired; the identity is there and
  active) the answer is 401 with code PASSWORD_CHANGED. The verifier compares the
  token's issued-at second with the second of the password change and refuses tokens
  issued strictly before it.
\<close>

theorem stale_token_rejected_after_password_change:
  assumes "findById users uid = Some u" and "is_active u"
    and "changePassword b cfg uid cur new t1 users c = (r, users', c')"
    and "r = Success 200 [] \<or> r = Reject 500 ''Password change failed'' None"
    and "floor_sec t0 < floor_sec t1"
  shows "(\<forall>t2 c2. fst (fst (authenticateToken cfg (Bearer (generateJWT cfg u ttl t0)) t2 users' c2))
                     \<noteq> Next)
       \<and> (\<forall>t2 c2. \<not> failing c2
             \<longrightarrow> \<not> truthy (map_option val
                     (r_lookup t2 (db c2) (BlacklistedToken (generateJWT cfg u ttl t0))))
             \<longrightarrow> floor_sec t2 < floor_sec t0 + ttl
             \<longrightarrow> fst (fst (authenticateToken cfg (Bearer (generateJWT cfg u ttl t0)) t2 users' c2))
                   = Reject 401 ''Password changed'' (Some ''PASSWORD_CHANGED''))"
proof -
  let ?tok = "generateJWT cfg u ttl t0"
  let ?p = "\<lparr>userId = user_id u, iat = floor_sec t0, exp = Some (floor_sec t0 + ttl)\<rparr>"
  have tok: "?tok = Signed (jwt_secret cfg) ?p"
    by (simp add: generateJWT_def jwt_sign_def)
  have uid: "user_id u = uid" using assms(1) by (rule findById_user_id)
  have user: "authenticateToken_user ?p ?tok users'
                = (Reject 401 ''Password changed'' (Some ''PASSWORD_CHANGED''), None)"
    using assms uid by (intro stale_user[where ?t0.0 = t0]) auto
  have nonempty: "?tok \<noteq> Opaque []" by (simp add: tok)
  have jwt: "fst (authenticateToken_jwt cfg ?tok t2 users') \<noteq> Next" for t2
    using user by (simp add: authenticateToken_jwt_def jwt_verify_def tok)
  have jwt_ok: "authenticateToken_jwt cfg ?tok t2 users'
                  = (Reject 401 ''Password changed'' (Some ''PASSWORD_CHANGED''), None)"
    if "floor_sec t2 < floor_sec t0 + ttl" for t2
    using user that by (simp add: authenticateToken_jwt_def jwt_verify_def tok)
  have a: "fst (fst (authenticateToken cfg (Bearer ?tok) t2 users' c2)) \<noteq> Next" for t2 c2
    using jwt[of t2] nonempty by (simp add: authenticateToken_def r_get_def)
  have b: "fst (fst (authenticateToken cfg (Bearer ?tok) t2 users' c2))
            = Reject 401 ''Password changed'' (Some ''PASSWORD_CHANGED'')"
    if "\<not> failing c2"
       "\<not> truthy (map_option val (r_lookup t2 (db c2) (BlacklistedToken ?tok)))"
       "floor_sec t2 < floor_sec t0 + ttl" for t2 c2
    using that jwt_ok[of t2] nonempty by (simp add: authenticateToken_def r_get_def)
  show ?thesis using a b by blast
qed

text \<open>
  A run of the amended claim: Alice's 24-hour token from time 0, her password changed at
  5 s through the route, the token presented at 6 s to the store the change left behind.
\<close>

theorem stale_token_rejected_witness:
  "(let tok = generateJWT demo_config alice (24 * 60 * 60) 0;
        r = changePassword False demo_config ''1'' ''Secret123!'' ''NewSecret456!'' 5000
              [alice] empty_client
    in fst r = Reject 500 ''Password change failed'' None
     \<and> fst (fst (authenticateToken demo_config (Bearer tok) 6000 (fst (snd r)) (snd (snd r))))
         = Reject 401 ''Password changed'' (Some ''PASSWORD_CHANGED'')
     \<and> fst (fst (authenticateToken demo_config (Bearer tok) 6000 (fst (snd r)) (snd (snd r))))
         \<noteq> Next)"
proof -
  let ?r = "changePassword False demo_config ''1'' ''Secret123!'' ''NewSecret456!'' 5000
              [alice] empty_client"
  have r: "?r = (Reject 500 ''Password change failed'' None, fst (snd ?r), snd (snd ?r))"
    by (simp add: us_defs store_ops demo_defs pw_defs)
  have o: "Reject 500 ''Password change failed'' None = Success 200 []
           \<or> Reject 500 ''Password change failed'' None
               = Reject 500 ''Password change failed'' None"
    by simp
  have f: "findById [alice] ''1'' = Some alice" by (simp add: findById_def alice_def)
  have a: "is_active alice" by (simp add: alice_def)
  have t: "floor_sec 0 < floor_sec 5000" by (simp add: floor_sec_def)
  have h1: "\<not> failing (snd (snd ?r))" by (simp add: us_defs store_ops demo_defs pw_defs)
  have h2: "\<not> truthy (map_option val (r_lookup 6000 (db (snd (snd ?r)))
              (BlacklistedToken (generateJWT demo_config alice (24 * 60 * 60) 0))))"
    by (simp add: us_defs store_ops demo_defs pw_defs)
  have h3: "floor_sec 6000 < floor_sec 0 + 24 * 60 * 60" by (simp add: floor_sec_def)
  show ?thesis
    using stale_token_rejected_after_password_change[OF f a r o t, of "24 * 60 * 60"] h1 h2 h3
    by (simp add: Let_def) (simp add: us_defs store_ops demo_defs pw_defs)
qed

section \<open>The failed-attempt guard\<close>

lemmas guard_defs =
  checkFailedAttempts_def checkFailedAttempts_ip_def checkFailedAttempts_limits_def
  attempts_ge_def maxUserAttempts_def maxIpAttempts_def

lemma locked_guard:
  assumes "healthy c" "e \<noteq> []" "findByEmail users e = Some u"
    and "r_lookup now (db c) (FailedUser (user_id u)) = Some ent" "val ent = VInt n" "5 \<le> n"
  shows "checkFailedAttempts (Some e) ip now users c
           = (Reject 429 ''Account temporarily locked'' (Some ''ACCOUNT_LOCKED''),
              c\<lparr>cmds := cmds c @ [GET (FailedUser (user_id u)), GET (FailedIp ip)]\<rparr>)"
  using assms
  by (simp add: guard_defs r_get_def issue_def failing_def healthy_def)

lemma other_guard:
  assumes "healthy c" "e2 \<noteq> []"
  shows "fst (checkFailedAttempts (Some e2) ip now users c)
           = (case findByEmail users e2 of
                None \<Rightarrow> checkFailedAttempts_limits None
                          (map_option val (r_lookup now (db c) (FailedIp ip)))
              | Some u2 \<Rightarrow> checkFailedAttempts_limits
                          (map_option val (r_lookup now (db c) (FailedUser (user_id u2))))
                          (map_option val (r_lookup now (db c) (FailedIp ip))))"
  using assms
  by (simp add: checkFailedAttempts_def checkFailedAttempts_ip_def r_get_def issue_def
      failing_def healthy_def split: option.splits)

text \<open>
  What the guard does with the email as the request sends it. When the store holds a
  live failure counter of 5 or more for an identity, a login attempt whose email, as
  sent, is found to be that identity's is answered 429 ACCOUNT_LOCKED by the guard,
  whatever the password, the validation and the configuration: the only commands issued
  are the two reads of the guard, so the controller and its password check never run.
  An attempt from the same address against another identity that is below its own
  threshold, or with an email that is not found, is decided by the address counter
  alone, with threshold 10.
\<close>

lemma guard_locks_email_as_sent:
  assumes "healthy c" "e \<noteq> []" "findByEmail users e = Some u"
    and "r_lookup now (db c) (FailedUser (user_id u)) = Some ent" "val ent = VInt n" "5 \<le> n"
  shows "(\<forall>cfg validate pw rm.
            login_route cfg validate \<lparr>raw_email = Some e, raw_password = pw, raw_rememberMe = rm\<rparr>
              ip now users c
            = (Reject 429 ''Account temporarily locked'' (Some ''ACCOUNT_LOCKED''),
               c\<lparr>cmds := cmds c @ [GET (FailedUser (user_id u)), GET (FailedIp ip)]\<rparr>))
       \<and> (\<forall>e2 u2. e2 \<noteq> [] \<longrightarrow> findByEmail users e2 = Some u2 \<longrightarrow> user_id u2 \<noteq> user_id u
             \<longrightarrow> \<not> attempts_ge (map_option val (r_lookup now (db c) (FailedUser (user_id u2))))
                     maxUserAttempts
             \<longrightarrow> fst (checkFailedAttempts (Some e2) ip now users c)
                   = (if attempts_ge (map_option val (r_lookup now (db c) (FailedIp ip)))
                           maxIpAttempts
                      then Reject 429 ''IP temporarily blocked'' (Some ''IP_BLOCKED'')
                      else Next))
       \<and> (\<forall>e2. e2 \<noteq> [] \<longrightarrow> findByEmail users e2 = None
             \<longrightarrow> fst (checkFailedAttempts (Some e2) ip now users c)
                   = (if attempts_ge (map_option val (r_lookup now (db c) (FailedIp ip)))
                           maxIpAttempts
                      then Reject 429 ''IP temporarily blocked'' (Some ''IP_BLOCKED'')
                      else Next))"
proof (intro conjI allI impI)
  fix cfg validate pw rm
  show "login_route cfg validate \<lparr>raw_email = Some e, raw_password = pw, raw_rememberMe = rm\<rparr>
              ip now users c
            = (Reject 429 ''Account temporarily locked'' (Some ''ACCOUNT_LOCKED''),
               c\<lparr>cmds := cmds c @ [GET (FailedUser (user_id u)), GET (FailedIp ip)]\<rparr>)"
    using locked_guard[OF assms, of ip] by (simp add: login_route_def)
next
  fix e2 u2
  assume "e2 \<noteq> []" "findByEmail users e2 = Some u2"
    "\<not> attempts_ge (map_option val (r_lookup now (db c) (FailedUser (user_id u2))))
         maxUserAttempts"
  then show "fst (checkFailedAttempts (Some e2) ip now users c)
                   = (if attempts_ge (map_option val (r_lookup now (db c) (FailedIp ip)))
                           maxIpAttempts
                      then Reject 429 ''IP temporarily blocked'' (Some ''IP_BLOCKED'')
                      else Next)"
    using other_guard[OF assms(1), of e2 ip now users]
    by (simp add: checkFailedAttempts_limits_def)
next
  fix e2
  assume "e2 \<noteq> []" "findByEmail users e2 = None"
  then show "fst (checkFailedAttempts (Some e2) ip now users c)
                   = (if attempts_ge (map_option val (r_lookup now (db c) (FailedIp ip)))
                           maxIpAttempts
                      then Reject 429 ''IP temporarily blocked'' (Some ''IP_BLOCKED'')
                      else Next)"
    using other_guard[OF assms(1), of e2 ip now users]
    by (simp add: checkFailedAttempts_limits_def attempts_ge_def maxUserAttempts_def)
qed

text \<open>
  Wrong passwords are what fills the counters: an attempt with a wrong password for an
  active identity, below both thresholds and with a working store, is answered
  INCORRECT_PASSWORD, raises the identity's and the address's counter by one and sets
  both to expire 15 minutes later, and touches no other key. So a run of such attempts,
  each less than 15 minutes after the one before, adds its length to both counters.
\<close>

lemma incrementFailedAttempts_entries:
  assumes "healthy c"
    and "counter_value t c (FailedUser uid) = Some n"
    and "counter_value t c (FailedIp ip) = Some m"
  shows "map_of (db (incrementFailedAttempts uid ip t c)) (FailedUser uid)
           = Some \<lparr>val = VInt (n + 1), expireAt = Some (t + 900000)\<rparr>"
    and "map_of (db (incrementFailedAttempts uid ip t c)) (FailedIp ip)
           = Some \<lparr>val = VInt (m + 1), expireAt = Some (t + 900000)\<rparr>"
    and "healthy (incrementFailedAttempts uid ip t c)"
    and "k \<noteq> FailedUser uid \<Longrightarrow> k \<noteq> FailedIp ip
           \<Longrightarrow> map_of (db (incrementFailedAttempts uid ip t c)) k = map_of (db c) k"
proof -
  define c1 where "c1 = snd (r_incr t (FailedUser uid) c)"
  define c2 where "c2 = snd (r_expire t (FailedUser uid) 900 c1)"
  define c3 where "c3 = snd (r_incr t (FailedIp ip) c2)"
  define c4 where "c4 = snd (r_expire t (FailedIp ip) 900 c3)"
  have eq: "incrementFailedAttempts uid ip t c = c4"
    unfolding incrementFailedAttempts_def c1_def c2_def c3_def c4_def by simp
  obtain e1 where e1: "r_lookup t (db c1) (FailedUser uid) = Some e1" "val e1 = VInt (n + 1)"
    using r_incr_healthy(1)[OF assms(1,2)] unfolding c1_def by blast
  have h1: "healthy c1" unfolding c1_def by (rule r_incr_healthy(2)[OF assms(1,2)])
  have "map_of (db c2) (FailedUser uid) = Some (e1\<lparr>expireAt := Some (t + 900 * 1000)\<rparr>)"
    unfolding c2_def by (rule r_expire_healthy(1)[OF h1 e1(1)])
  then have u2: "map_of (db c2) (FailedUser uid)
              = Some \<lparr>val = VInt (n + 1), expireAt = Some (t + 900000)\<rparr>"
    using e1(2) by (cases e1) simp
  have h2: "healthy c2" unfolding c2_def by (rule r_expire_healthy(2)[OF h1 e1(1)])
  have "map_of (db c1) (FailedIp ip) = map_of (db c) (FailedIp ip)"
    unfolding c1_def by (rule r_incr_healthy(3)[OF assms(1,2)]) simp
  moreover have "map_of (db c2) (FailedIp ip) = map_of (db c1) (FailedIp ip)"
    unfolding c2_def by (rule r_expire_healthy(3)[OF h1 e1(1)]) simp
  ultimately have m2: "counter_value t c2 (FailedIp ip) = Some m"
    using assms(3) counter_value_cong[of c2 "FailedIp ip" c t] by simp
  obtain e3 where e3: "r_lookup t (db c3) (FailedIp ip) = Some e3" "val e3 = VInt (m + 1)"
    using r_incr_healthy(1)[OF h2 m2] unfolding c3_def by blast
  have h3: "healthy c3" unfolding c3_def by (rule r_incr_healthy(2)[OF h2 m2])
  have "map_of (db c4) (FailedIp ip) = Some (e3\<lparr>expireAt := Some (t + 900 * 1000)\<rparr>)"
    unfolding c4_def by (rule r_expire_healthy(1)[OF h3 e3(1)])
  then have i4: "map_of (db c4) (FailedIp ip)
              = Some \<lparr>val = VInt (m + 1), expireAt = Some (t + 900000)\<rparr>"
    using e3(2) by (cases e3) simp
  have h4: "healthy c4" unfolding c4_def by (rule r_expire_healthy(2)[OF h3 e3(1)])
  have "map_of (db c3) (FailedUser uid) = map_of (db c2) (FailedUser uid)"
    unfolding c3_def by (rule r_incr_healthy(3)[OF h2 m2]) simp
  moreover have "map_of (db c4) (FailedUser uid) = map_of (db c3) (FailedUser uid)"
    unfolding c4_def by (rule r_expire_healthy(3)[OF h3 e3(1)]) simp
  ultimately have u4: "map_of (db c4) (FailedUser uid)
              = Some \<lparr>val = VInt (n + 1), expireAt = Some (t + 900000)\<rparr>"
    using u2 by simp
  show "map_of (db (incrementFailedAttempts uid ip t c)) (FailedUser uid)
           = Some \<lparr>val = VInt (n + 1), expireAt = Some (t + 900000)\<rparr>"
    using u4 eq by simp
  show "map_of (db (incrementFailedAttempts uid ip t c)) (FailedIp ip)
           = Some \<lparr>val = VInt (m + 1), expireAt = Some (t + 900000)\<rparr>"
    using i4 eq by simp
  show "healthy (incrementFailedAttempts uid ip t c)" using h4 eq by simp
  show "map_of (db (incrementFailedAttempts uid ip t c)) k = map_of (db c) k"
    if k: "k \<noteq> FailedUser uid" "k \<noteq> FailedIp ip"
  proof -
    have "map_of (db c1) k = map_of (db c) k"
      unfolding c1_def by (rule r_incr_healthy(3)[OF assms(1,2) k(1)])
    moreover have "map_of (db c2) k = map_of (db c1) k"
      unfolding c2_def by (rule r_expire_healthy(3)[OF h1 e1(1) k(1)])
    moreover have "map_of (db c3) k = map_of (db c2) k"
      unfolding c3_def by (rule r_incr_healthy(3)[OF h2 m2 k(2)])
    moreover have "map_of (db c4) k = map_of (db c3) k"
      unfolding c4_def by (rule r_expire_healthy(3)[OF h3 e3(1) k(2)])
    ultimately show ?thesis using eq by simp
  qed
qed

lemma wrong_password_attempt:
  assumes "healthy c" "e \<noteq> []" "findByEmail users e = Some u" "is_active u"
    and "raw_email raw = Some e" "validate raw = Some body" "body_email body = e"
    and "\<not> verifyPassword cfg u (body_password body)"
    and "counter_value t c (FailedUser (user_id u)) = Some n" "n < 5"
    and "counter_value t c (FailedIp ip) = Some m" "m < 10"
  shows "fst (login_route cfg validate raw ip t users c) = Reject 401 ''INCORRECT_PASSWORD'' None"
    and "map_of (db (snd (login_route cfg validate raw ip t users c))) (FailedUser (user_id u))
           = Some \<lparr>val = VInt (n + 1), expireAt = Some (t + 900000)\<rparr>"
    and "map_of (db (snd (login_route cfg validate raw ip t users c))) (FailedIp ip)
           = Some \<lparr>val = VInt (m + 1), expireAt = Some (t + 900000)\<rparr>"
    and "healthy (snd (login_route cfg validate raw ip t users c))"
    and "k \<noteq> FailedUser (user_id u) \<Longrightarrow> k \<noteq> FailedIp ip
           \<Longrightarrow> map_of (db (snd (login_route cfg validate raw ip t users c))) k
                 = map_of (db c) k"
proof -
  let ?g = "c\<lparr>cmds := cmds c @ [GET (FailedUser (user_id u)), GET (FailedIp ip)]\<rparr>"
  have un: "\<not> attempts_ge (map_option val (r_lookup t (db c) (FailedUser (user_id u)))) 5"
    using assms(9,10)
    by (auto simp: counter_value_def attempts_ge_def split: option.splits rval.splits)
  have im: "\<not> attempts_ge (map_option val (r_lookup t (db c) (FailedIp ip))) 10"
    using assms(11,12)
    by (auto simp: counter_value_def attempts_ge_def split: option.splits rval.splits)
  have guard: "checkFailedAttempts (Some e) ip t users c = (Next, ?g)"
    using assms(1,2,3) un im
    by (simp add: guard_defs r_get_def issue_def failing_def healthy_def)
  have hg: "healthy ?g" using assms(1) by (simp add: healthy_def)
  have cg: "counter_value t ?g (FailedUser (user_id u)) = Some n"
    "counter_value t ?g (FailedIp ip) = Some m"
    using assms(9,11) by (simp_all add: counter_value_def)
  have route: "login_route cfg validate raw ip t users c
       = (Reject 401 ''INCORRECT_PASSWORD'' None, incrementFailedAttempts (user_id u) ip t ?g)"
    using guard assms(3,4,5,6,7,8) by (simp add: login_route_def login_def)
  note inc = incrementFailedAttempts_entries[OF hg cg]
  show "fst (login_route cfg validate raw ip t users c) = Reject 401 ''INCORRECT_PASSWORD'' None"
    using route by simp
  show "map_of (db (snd (login_route cfg validate raw ip t users c))) (FailedUser (user_id u))
           = Some \<lparr>val = VInt (n + 1), expireAt = Some (t + 900000)\<rparr>"
    using route inc(1) by simp
  show "map_of (db (snd (login_route cfg validate raw ip t users c))) (FailedIp ip)
           = Some \<lparr>val = VInt (m + 1), expireAt = Some (t + 900000)\<rparr>"
    using route inc(2) by simp
  show "healthy (snd (login_route cfg validate raw ip t users c))"
    using route inc(3) by simp
  show "map_of (db (snd (login_route cfg validate raw ip t users c))) k = map_of (db c) k"
    if "k \<noteq> FailedUser (user_id u)" "k \<noteq> FailedIp ip"
    using route inc(4)[OF that] by simp
qed


lemma login_attempts_Cons:
  "fst (login_attempts cfg validate raw ip (t # ts) users c)
     = fst (login_route cfg validate raw ip t users c)
       # fst (login_attempts cfg validate raw ip ts users
               (snd (login_route cfg validate raw ip t users c)))"
  "snd (login_attempts cfg validate raw ip (t # ts) users c)
     = snd (login_attempts cfg validate raw ip ts users
              (snd (login_route cfg validate raw ip t users c)))"
  by (simp_all add: case_prod_beta)

lemma wrong_password_run:
  assumes "e \<noteq> []" "findByEmail users e = Some u" "is_active u"
    and "raw_email raw = Some e" "validate raw = Some body" "body_email body = e"
    and "\<not> verifyPassword cfg u (body_password body)"
    and "healthy c"
    and "counter_value t c (FailedUser (user_id u)) = Some n"
    and "counter_value t c (FailedIp ip) = Some m"
    and "spaced t ts"
    and "n + int (length (t # ts)) \<le> 5" "m + int (length (t # ts)) \<le> 10"
  shows "fst (login_attempts cfg validate raw ip (t # ts) users c)
           = replicate (length (t # ts)) (Reject 401 ''INCORRECT_PASSWORD'' None)
       \<and> map_of (db (snd (login_attempts cfg validate raw ip (t # ts) users c)))
             (FailedUser (user_id u))
           = Some \<lparr>val = VInt (n + int (length (t # ts))),
                   expireAt = Some (last (t # ts) + 900000)\<rparr>
       \<and> map_of (db (snd (login_attempts cfg validate raw ip (t # ts) users c)))
             (FailedIp ip)
           = Some \<lparr>val = VInt (m + int (length (t # ts))),
                   expireAt = Some (last (t # ts) + 900000)\<rparr>
       \<and> healthy (snd (login_attempts cfg validate raw ip (t # ts) users c))
       \<and> (\<forall>k. k \<noteq> FailedUser (user_id u) \<longrightarrow> k \<noteq> FailedIp ip
             \<longrightarrow> map_of (db (snd (login_attempts cfg validate raw ip (t # ts) users c))) k
                   = map_of (db c) k)"
  using assms(8-13)
proof (induction ts arbitrary: t c n m)
  case Nil
  have n: "n < 5" and m: "m < 10" using Nil.prems(5,6) by simp_all
  note st = wrong_password_attempt[where validate = validate and raw = raw and body = body,
      OF Nil.prems(1) assms(1,2,3,4,5,6,7) Nil.prems(2) n Nil.prems(3) m]
  show ?case using st by (simp add: login_attempts_Cons del: login_attempts.simps(2))
next
  case (Cons t' ts)
  let ?c1 = "snd (login_route cfg validate raw ip t users c)"
  have n: "n < 5" and m: "m < 10" using Cons.prems(5,6) by simp_all
  note st = wrong_password_attempt[where validate = validate and raw = raw and body = body,
      OF Cons.prems(1) assms(1,2,3,4,5,6,7) Cons.prems(2) n Cons.prems(3) m]
  have t': "t' < t + 900000" and sp: "spaced t' ts" using Cons.prems(4) by simp_all
  have cu: "counter_value t' ?c1 (FailedUser (user_id u)) = Some (n + 1)"
    using st(2) t' by (simp add: counter_value_entry)
  have ci: "counter_value t' ?c1 (FailedIp ip) = Some (m + 1)"
    using st(3) t' by (simp add: counter_value_entry)
  have ln: "n + 1 + int (length (t' # ts)) \<le> 5" and lm: "m + 1 + int (length (t' # ts)) \<le> 10"
    using Cons.prems(5,6) by simp_all
  note ih = Cons.IH[OF st(4) cu ci sp ln lm]
  have f: "fst (login_attempts cfg validate raw ip (t # t' # ts) users c)
             = fst (login_route cfg validate raw ip t users c)
               # fst (login_attempts cfg validate raw ip (t' # ts) users ?c1)"
    and s: "snd (login_attempts cfg validate raw ip (t # t' # ts) users c)
             = snd (login_attempts cfg validate raw ip (t' # ts) users ?c1)"
    by (rule login_attempts_Cons)+
  show ?case
    unfolding f s using ih st(1) st(5)
    by (simp add: algebra_simps del: login_attempts.simps(2))
qed

text \<open>
  An email that is not found as it is sent passes the guard on the address counter
  alone. The schema then puts it in lower case, and the controller looks up the
  lower-case email: when that is an identity's and the password is right, the login
  succeeds and deletes the identity's failure counter; when the password is wrong, it
  has been verified all the same.
\<close>

lemma unresolved_email_passes_guard:
  assumes "healthy c" "e \<noteq> []" "findByEmail users e = None"
    and "\<not> attempts_ge (map_option val (r_lookup t (db c) (FailedIp ip))) maxIpAttempts"
  shows "checkFailedAttempts (Some e) ip t users c
           = (Next, c\<lparr>cmds := cmds c @ [GET (FailedIp ip)]\<rparr>)"
  using assms
  by (simp add: guard_defs r_get_def issue_def failing_def healthy_def)

lemma case_variant_login:
  assumes "healthy c" "e \<noteq> []" "findByEmail users e = None"
    and "\<not> attempts_ge (map_option val (r_lookup t (db c) (FailedIp ip))) maxIpAttempts"
    and "raw_email raw = Some e" "validate raw = Some body"
    and "findByEmail users (body_email body) = Some u" "is_active u"
    and "verifyPassword cfg u (body_password body)"
  shows "fst (login_route cfg validate raw ip t users c)
           = Success 200 [generateJWT cfg u
                            (if rememberMe body then 7 * 24 * 60 * 60 else 24 * 60 * 60) t,
                          generateRefreshToken cfg u t]"
    and "map_of (db (snd (login_route cfg validate raw ip t users c))) (FailedUser (user_id u))
           = None"
proof -
  let ?g = "c\<lparr>cmds := cmds c @ [GET (FailedIp ip)]\<rparr>"
  have guard: "checkFailedAttempts (Some e) ip t users c = (Next, ?g)"
    by (rule unresolved_email_passes_guard[OF assms(1-4)])
  have route: "login_route cfg validate raw ip t users c
       = login_tokens cfg u (rememberMe body) t (resetFailedAttempts (user_id u) ip ?g)"
    using guard assms(5-9) by (simp add: login_route_def login_def)
  have nf: "\<And>i. \<not> faults c i" using assms(1) by (simp add: healthy_def)
  show "fst (login_route cfg validate raw ip t users c)
           = Success 200 [generateJWT cfg u
                            (if rememberMe body then 7 * 24 * 60 * 60 else 24 * 60 * 60) t,
                          generateRefreshToken cfg u t]"
    unfolding route using nf
    by (simp add: login_tokens_def resetFailedAttempts_def r_del_def r_set_def issue_def
        failing_def Let_def)
  show "map_of (db (snd (login_route cfg validate raw ip t users c))) (FailedUser (user_id u))
           = None"
    unfolding route using nf
    by (simp add: login_tokens_def resetFailedAttempts_def createSession_def r_del_def
        r_set_def issue_def failing_def Let_def map_of_store map_of_remove)
qed

lemma case_variant_wrong_password:
  assumes "healthy c" "e \<noteq> []" "findByEmail users e = None"
    and "\<not> attempts_ge (map_option val (r_lookup t (db c) (FailedIp ip))) maxIpAttempts"
    and "raw_email raw = Some e" "validate raw = Some body"
    and "findByEmail users (body_email body) = Some u" "is_active u"
    and "\<not> verifyPassword cfg u (body_password body)"
  shows "fst (login_route cfg validate raw ip t users c)
           = Reject 401 ''INCORRECT_PASSWORD'' None"
  using unresolved_email_passes_guard[OF assms(1-4)] assms(5-9)
  by (simp add: login_route_def login_def)

text \<open>
  Claim C7 (an identity with 5 or more recorded failed password attempts has its next
  login attempt rejected with 429 ACCOUNT_LOCKED before the password is verified), run
  on the login route. Five wrong passwords for Alice from 10.0.0.1, one second apart,
  bring her counter to 5. One second later an attempt with her email as stored is locked
  out, even with the right password. The same attempt with the email written
  \<open>Alice@example.com\<close> is not: the guard looks up the email as sent and finds no
  identity, the schema puts it in lower case, and the controller verifies the password
  of Alice: the right one logs in and deletes her counter, a wrong one is answered
  INCORRECT_PASSWORD.
\<close>

theorem case_variant_bypasses_lockout:
  "(let run = login_attempts demo_config demo_validate (attempt ''alice@example.com'' ''wrong'')
                ''10.0.0.1'' [0, 1000, 2000, 3000, 4000] [alice, bob] empty_client;
        hit = login_route demo_config demo_validate
                (attempt ''Alice@example.com'' ''Secret123!'') ''10.0.0.1'' 5000 [alice, bob]
                (snd run)
    in fst run = [Reject 401 ''INCORRECT_PASSWORD'' None, Reject 401 ''INCORRECT_PASSWORD'' None,
                  Reject 401 ''INCORRECT_PASSWORD'' None, Reject 401 ''INCORRECT_PASSWORD'' None,
                  Reject 401 ''INCORRECT_PASSWORD'' None]
     \<and> map_of (db (snd run)) (FailedUser ''1'')
         = Some \<lparr>val = VInt 5, expireAt = Some 904000\<rparr>
     \<and> fst (login_route demo_config demo_validate (attempt ''alice@example.com'' ''Secret123!'')
              ''10.0.0.1'' 5000 [alice, bob] (snd run))
         = Reject 429 ''Account temporarily locked'' (Some ''ACCOUNT_LOCKED'')
     \<and> fst hit = Success 200 [generateJWT demo_config alice (24 * 60 * 60) 5000,
                              generateRefreshToken demo_config alice 5000]
     \<and> map_of (db (snd hit)) (FailedUser ''1'') = None
     \<and> fst (login_route demo_config demo_validate (attempt ''Alice@example.com'' ''guess'')
              ''10.0.0.1'' 5000 [alice, bob] (snd run))
         = Reject 401 ''INCORRECT_PASSWORD'' None)"
proof -
  let ?raw = "attempt ''alice@example.com'' ''wrong''"
  let ?body = "\<lparr>body_email = ''alice@example.com'', body_password = ''wrong'',
                 rememberMe = False\<rparr>"
  let ?run = "login_attempts demo_config demo_validate ?raw ''10.0.0.1''
                (0 # [1000, 2000, 3000, 4000]) [alice, bob] empty_client"
  let ?Raw = "\<lambda>p. attempt ''Alice@example.com'' p"
  let ?Body = "\<lambda>p. \<lparr>body_email = ''alice@example.com'', body_password = p,
                      rememberMe = False\<rparr>"
  have e: "''alice@example.com'' \<noteq> []" by simp
  have f: "findByEmail [alice, bob] ''alice@example.com'' = Some alice"
    by (simp add: findByEmail_def alice_def)
  have a: "is_active alice" by (simp add: alice_def)
  have re: "raw_email ?raw = Some ''alice@example.com''" by (simp add: attempt_def)
  have va: "demo_validate ?raw = Some ?body"
    by (simp add: attempt_def demo_validate_def loginSchema_def toLowerCase_def
        demo_is_email_def)
  have be: "body_email ?body = ''alice@example.com''" by simp
  have wp: "\<not> verifyPassword demo_config alice (body_password ?body)"
    by (simp add: verifyPassword_def demo_config_def alice_def)
  have h: "healthy empty_client" by (simp add: healthy_def empty_client_def)
  have cu: "counter_value 0 empty_client (FailedUser (user_id alice)) = Some 0"
    and ci: "counter_value 0 empty_client (FailedIp ''10.0.0.1'') = Some 0"
    by (simp_all add: counter_value_def r_lookup_def empty_client_def)
  have sp: "spaced 0 [1000, 2000, 3000, 4000]" by simp
  have ln: "0 + int (length (0 # [1000::nat, 2000, 3000, 4000])) \<le> 5"
    and lm: "0 + int (length (0 # [1000::nat, 2000, 3000, 4000])) \<le> 10" by simp_all
  note run = wrong_password_run[where validate = demo_validate and raw = ?raw and body = ?body,
      OF e f a re va be wp h cu ci sp ln lm]
  have outs: "fst ?run
      = [Reject 401 ''INCORRECT_PASSWORD'' None, Reject 401 ''INCORRECT_PASSWORD'' None,
         Reject 401 ''INCORRECT_PASSWORD'' None, Reject 401 ''INCORRECT_PASSWORD'' None,
         Reject 401 ''INCORRECT_PASSWORD'' None]"
    using run by (simp del: login_attempts.simps)
  have hr: "healthy (snd ?run)" using run by blast
  have ent: "map_of (db (snd ?run)) (FailedUser ''1'')
               = Some \<lparr>val = VInt 5, expireAt = Some 904000\<rparr>"
    using run by (simp add: alice_def del: login_attempts.simps)
  have lk: "r_lookup 5000 (db (snd ?run)) (FailedUser (user_id alice))
              = Some \<lparr>val = VInt 5, expireAt = Some 904000\<rparr>"
    using run by (simp add: r_lookup_def live_def del: login_attempts.simps)
  have v: "val \<lparr>val = VInt 5, expireAt = Some 904000\<rparr> = VInt 5" by simp
  have n: "(5::int) \<le> 5" by simp
  have locked: "fst (login_route demo_config demo_validate
                       (attempt ''alice@example.com'' ''Secret123!'') ''10.0.0.1'' 5000
                       [alice, bob] (snd ?run))
                  = Reject 429 ''Account temporarily locked'' (Some ''ACCOUNT_LOCKED'')"
    using guard_locks_email_as_sent[OF hr e f lk v n, of "''10.0.0.1''"]
    by (simp add: attempt_def del: login_attempts.simps)
  have E: "''Alice@example.com'' \<noteq> []" by simp
  have F: "findByEmail [alice, bob] ''Alice@example.com'' = None"
    by (simp add: findByEmail_def alice_def bob_def)
  have ip: "\<not> attempts_ge (map_option val (r_lookup 5000 (db (snd ?run))
                 (FailedIp ''10.0.0.1''))) maxIpAttempts"
    using run by (simp add: r_lookup_def live_def attempts_ge_def maxIpAttempts_def
        del: login_attempts.simps)
  have RE: "raw_email (?Raw p) = Some ''Alice@example.com''" for p
    by (simp add: attempt_def)
  have VA: "p \<noteq> [] \<Longrightarrow> demo_validate (?Raw p) = Some (?Body p)" for p
    by (simp add: attempt_def demo_validate_def loginSchema_def toLowerCase_def
        demo_is_email_def)
  have FB: "findByEmail [alice, bob] (body_email (?Body p)) = Some alice" for p
    using f by simp
  have ok: "verifyPassword demo_config alice (body_password (?Body ''Secret123!''))"
    by (simp add: verifyPassword_def demo_config_def alice_def)
  have bad: "\<not> verifyPassword demo_config alice (body_password (?Body ''guess''))"
    by (simp add: verifyPassword_def demo_config_def alice_def)
  note hit = case_variant_login[where validate = demo_validate and raw = "?Raw ''Secret123!''"
      and body = "?Body ''Secret123!''", OF hr E F ip RE VA FB a ok]
  note miss = case_variant_wrong_password[where validate = demo_validate
      and raw = "?Raw ''guess''" and body = "?Body ''guess''", OF hr E F ip RE VA FB a bad]
  show ?thesis
    using outs ent locked hit miss
    by (simp add: Let_def alice_def del: login_attempts.simps)
qed

text \<open>
  Claim C10: a login request without an email (absent, or empty) passes the guard and
  the guard issues no store command at all: the client it returns is the client it was
  given, whatever the counters hold. And when a command the guard issues is rejected by
  the store, the request passes.
\<close>

theorem guard_admits_without_email:
  "checkFailedAttempts None ip now users c = (Next, c)
   \<and> checkFailedAttempts (Some []) ip now users c = (Next, c)
   \<and> ((\<exists>i. length (cmds c) \<le> i
            \<and> i < length (cmds (snd (checkFailedAttempts (Some e) ip now users c)))
            \<and> faults c i)
        \<longrightarrow> fst (checkFailedAttempts (Some e) ip now users c) = Next)"
  by (auto simp: checkFailedAttempts_def checkFailedAttempts_ip_def r_get_def issue_def
      failing_def less_Suc_eq split: option.splits)

text \<open>
  A run: ten failures are recorded for the address. A request with an email is blocked;
  a request without one passes and leaves no trace in the client. With a store that
  rejects every command, Alice's locked account passes the guard as well.
\<close>

theorem guard_admits_without_email_witness:
  "fst (checkFailedAttempts (Some ''bob@example.com'') ''10.0.0.1'' 5000 [alice, bob]
          blocked_ip_client)
     = Reject 429 ''IP temporarily blocked'' (Some ''IP_BLOCKED'')
   \<and> checkFailedAttempts None ''10.0.0.1'' 5000 [alice, bob] blocked_ip_client
     = (Next, blocked_ip_client)
   \<and> checkFailedAttempts (Some []) ''10.0.0.1'' 5000 [alice, bob] blocked_ip_client
     = (Next, blocked_ip_client)
   \<and> fst (checkFailedAttempts (Some ''alice@example.com'') ''10.0.0.1'' 5000 [alice, bob]
            (locked_client\<lparr>faults := (\<lambda>i. True)\<rparr>)) = Next"
proof -
  let ?c = "locked_client\<lparr>faults := (\<lambda>i. True)\<rparr>"
  have "length (cmds ?c) \<le> 0
      \<and> 0 < length (cmds (snd (checkFailedAttempts (Some ''alice@example.com'') ''10.0.0.1''
                5000 [alice, bob] ?c)))
      \<and> faults ?c 0"
    by (simp add: guard_defs demo_defs findByEmail_def r_get_def issue_def failing_def)
  then have ex: "\<exists>i. length (cmds ?c) \<le> i
      \<and> i < length (cmds (snd (checkFailedAttempts (Some ''alice@example.com'') ''10.0.0.1''
                5000 [alice, bob] ?c)))
      \<and> faults ?c i" by blast
  have blocked: "fst (checkFailedAttempts (Some ''bob@example.com'') ''10.0.0.1'' 5000
                        [alice, bob] blocked_ip_client)
                   = Reject 429 ''IP temporarily blocked'' (Some ''IP_BLOCKED'')"
    by (simp add: guard_defs demo_defs findByEmail_def store_ops)
  show ?thesis
    using guard_admits_without_email[of "''10.0.0.1''" 5000 "[alice, bob]" blocked_ip_client]
      guard_admits_without_email[of "''10.0.0.1''" 5000 "[alice, bob]" ?c
        "''alice@example.com''"] ex blocked
    by simp
qed

section \<open>Refresh tokens\<close>

lemma refresh_accepts_stored:
  assumes "refreshToken cfg (Some tok) now users c = (Success st toks, c')"
  shows "\<exists>secret p. refresh_secret cfg = Some secret \<and> jwt_verify tok secret now = Inr p
           \<and> map_option val (r_lookup now (db c) (RefreshTokenKey (userId p))) = Some (VTok tok)"
  using assms
  by (auto simp: refreshToken_def refreshToken_stored_def r_get_def
      split: option.splits sum.splits if_splits prod.splits)

lemma refresh_rejects_other:
  assumes "\<not> failing c" "tok \<noteq> Opaque []"
    and "\<not> (\<exists>secret p. refresh_secret cfg = Some secret \<and> jwt_verify tok secret now = Inr p
           \<and> map_option val (r_lookup now (db c) (RefreshTokenKey (userId p))) = Some (VTok tok))"
  shows "fst (refreshToken cfg (Some tok) now users c) = Reject 401 ''Invalid refresh token'' None"
  using assms
  by (auto simp: refreshToken_def refreshToken_stored_def r_get_def
      split: option.splits sum.splits)

lemma refresh_stores_new:
  assumes "refreshToken cfg (Some tok) now users c = (Success st toks, c')"
  shows "\<exists>u p secret. refresh_secret cfg = Some secret \<and> jwt_verify tok secret now = Inr p
           \<and> findById users (userId p) = Some u
           \<and> toks = [generateJWT cfg u (24 * 60 * 60) now, generateRefreshToken cfg u now]
           \<and> map_option val (r_lookup now (db c') (RefreshTokenKey (user_id u)))
               = Some (VTok (generateRefreshToken cfg u now))"
  using assms
  by (auto simp: refreshToken_def refreshToken_stored_def refreshToken_issue_def r_get_def
      r_setex_def setex_def Let_def r_lookup_store live_def issue_def
      split: option.splits sum.splits if_splits prod.splits)

lemma login_stores_new:
  assumes "login cfg body ip now users c = (Success st toks, c')"
  shows "\<exists>u. findByEmail users (body_email body) = Some u
           \<and> toks = [generateJWT cfg u (if rememberMe body then 7 * 24 * 60 * 60 else 24 * 60 * 60) now,
                     generateRefreshToken cfg u now]
           \<and> map_option val (r_lookup now (db c') (RefreshTokenKey (user_id u)))
               = Some (VTok (generateRefreshToken cfg u now))"
  using assms
  by (auto simp: login_def login_tokens_def createSession_def r_set_def
      Let_def r_lookup_store live_def issue_def
      split: option.splits sum.splits if_splits prod.splits)

lemma register_stores_new:
  assumes "register cfg body newId now users c = (Success st toks, users', c')"
  shows "\<exists>u. user_id u = newId \<and> users' = users @ [u]
           \<and> toks = [generateJWT cfg u (24 * 60 * 60) now, generateRefreshToken cfg u now]
           \<and> map_option val (r_lookup now (db c') (RefreshTokenKey newId))
               = Some (VTok (generateRefreshToken cfg u now))"
  using assms
  by (auto simp: register_def register_create_def create_def r_set_def
      Let_def r_lookup_store live_def issue_def
      split: option.splits sum.splits if_splits prod.splits)

text \<open>
  Claim C8: the refresh endpoint answers with success only when the presented token is
  the value stored under the identity's single key \<open>refresh_token:<id>\<close>; with a
  working store every other presented token gets 401. So two tokens accepted in the same
  state for the same identity are the same token. A successful refresh, login or
  registration leaves exactly the refresh token it has just issued under that key,
  whatever was there before.
\<close>

theorem single_refresh_token:
  "(\<forall>st toks c'. refreshToken cfg (Some tok) now users c = (Success st toks, c')
       \<longrightarrow> (\<exists>secret p. refresh_secret cfg = Some secret \<and> jwt_verify tok secret now = Inr p
             \<and> map_option val (r_lookup now (db c) (RefreshTokenKey (userId p)))
                 = Some (VTok tok)))
   \<and> (\<not> failing c \<longrightarrow> tok \<noteq> Opaque []
       \<longrightarrow> \<not> (\<exists>secret p. refresh_secret cfg = Some secret \<and> jwt_verify tok secret now = Inr p
             \<and> map_option val (r_lookup now (db c) (RefreshTokenKey (userId p)))
                 = Some (VTok tok))
       \<longrightarrow> fst (refreshToken cfg (Some tok) now users c)
             = Reject 401 ''Invalid refresh token'' None)
   \<and> (\<forall>tok' secret p p' st toks c' st' toks' c''.
         refreshToken cfg (Some tok) now users c = (Success st toks, c')
       \<longrightarrow> refreshToken cfg (Some tok') now users c = (Success st' toks', c'')
       \<longrightarrow> refresh_secret cfg = Some secret
       \<longrightarrow> jwt_verify tok secret now = Inr p \<longrightarrow> jwt_verify tok' secret now = Inr p'
       \<longrightarrow> userId p = userId p' \<longrightarrow> tok' = tok)
   \<and> (\<forall>st toks c'. refreshToken cfg (Some tok) now users c = (Success st toks, c')
       \<longrightarrow> (\<exists>u. toks = [generateJWT cfg u (24 * 60 * 60) now, generateRefreshToken cfg u now]
             \<and> map_option val (r_lookup now (db c') (RefreshTokenKey (user_id u)))
                 = Some (VTok (generateRefreshToken cfg u now))))
   \<and> (\<forall>body ip st toks c'. login cfg body ip now users c = (Success st toks, c')
       \<longrightarrow> (\<exists>u. findByEmail users (body_email body) = Some u
             \<and> toks = [generateJWT cfg u
                         (if rememberMe body then 7 * 24 * 60 * 60 else 24 * 60 * 60) now,
                       generateRefreshToken cfg u now]
             \<and> map_option val (r_lookup now (db c') (RefreshTokenKey (user_id u)))
                 = Some (VTok (generateRefreshToken cfg u now))))
   \<and> (\<forall>body newId st toks users' c'.
         register cfg body newId now users c = (Success st toks, users', c')
       \<longrightarrow> (\<exists>u. user_id u = newId \<and> users' = users @ [u]
             \<and> toks = [generateJWT cfg u (24 * 60 * 60) now, generateRefreshToken cfg u now]
             \<and> map_option val (r_lookup now (db c') (RefreshTokenKey newId))
                 = Some (VTok (generateRefreshToken cfg u now))))"
proof (intro conjI allI impI)
  fix st toks c'
  assume "refreshToken cfg (Some tok) now users c = (Success st toks, c')"
  then show "\<exists>secret p. refresh_secret cfg = Some secret \<and> jwt_verify tok secret now = Inr p
             \<and> map_option val (r_lookup now (db c) (RefreshTokenKey (userId p)))
                 = Some (VTok tok)"
    by (rule refresh_accepts_stored)
next
  assume "\<not> failing c" "tok \<noteq> Opaque []"
    "\<not> (\<exists>secret p. refresh_secret cfg = Some secret \<and> jwt_verify tok secret now = Inr p
             \<and> map_option val (r_lookup now (db c) (RefreshTokenKey (userId p)))
                 = Some (VTok tok))"
  then show "fst (refreshToken cfg (Some tok) now users c)
             = Reject 401 ''Invalid refresh token'' None"
    by (rule refresh_rejects_other)
next
  fix tok' secret p p' st toks c' st' toks' c''
  assume a: "refreshToken cfg (Some tok) now users c = (Success st toks, c')"
    and b: "refreshToken cfg (Some tok') now users c = (Success st' toks', c'')"
    and s: "refresh_secret cfg = Some secret"
    and v: "jwt_verify tok secret now = Inr p" "jwt_verify tok' secret now = Inr p'"
    and i: "userId p = userId p'"
  from refresh_accepts_stored[OF a] s v
  have "map_option val (r_lookup now (db c) (RefreshTokenKey (userId p))) = Some (VTok tok)"
    by auto
  moreover from refresh_accepts_stored[OF b] s v
  have "map_option val (r_lookup now (db c) (RefreshTokenKey (userId p'))) = Some (VTok tok')"
    by auto
  ultimately show "tok' = tok" using i by simp
next
  fix st toks c'
  assume "refreshToken cfg (Some tok) now users c = (Success st toks, c')"
  from refresh_stores_new[OF this]
  show "\<exists>u. toks = [generateJWT cfg u (24 * 60 * 60) now, generateRefreshToken cfg u now]
             \<and> map_option val (r_lookup now (db c') (RefreshTokenKey (user_id u)))
                 = Some (VTok (generateRefreshToken cfg u now))"
    by blast
next
  fix body ip st toks c'
  assume "login cfg body ip now users c = (Success st toks, c')"
  then show "\<exists>u. findByEmail users (body_email body) = Some u
             \<and> toks = [generateJWT cfg u
                         (if rememberMe body then 7 * 24 * 60 * 60 else 24 * 60 * 60) now,
                       generateRefreshToken cfg u now]
             \<and> map_option val (r_lookup now (db c') (RefreshTokenKey (user_id u)))
                 = Some (VTok (generateRefreshToken cfg u now))"
    by (rule login_stores_new)
next
  fix body newId st toks users' c'
  assume "register cfg body newId now users c = (Success st toks, users', c')"
  then show "\<exists>u. user_id u = newId \<and> users' = users @ [u]
             \<and> toks = [generateJWT cfg u (24 * 60 * 60) now, generateRefreshToken cfg u now]
             \<and> map_option val (r_lookup now (db c') (RefreshTokenKey newId))
                 = Some (VTok (generateRefreshToken cfg u now))"
    by (rule register_stores_new)
qed

lemmas refresh_defs = refreshToken_def refreshToken_stored_def refreshToken_issue_def
  register_def register_create_def create_def findByUsername_def

text \<open>
  A run with a client that has \<open>setex\<close>: Alice logs in at 0 and gets refresh token r1;
  she refreshes with r1 at 5 s and gets r2, which replaces r1 in the store; at 6 s r1 is
  refused with 401 and r2 is accepted. A registration stores the new identity's refresh
  token in the same way. With the client the service creates, the login stores r1 all
  the same, and the refresh with r1 at 5 s passes the comparison, throws at
  \<open>redisClient.setex\<close> and answers 500: no token is issued and r1 stays the stored one.
\<close>

theorem single_refresh_token_witness:
  "(let r1 = generateRefreshToken demo_config alice 0;
        r2 = generateRefreshToken demo_config alice 5000;
        l = login demo_config (alice_login False) ''10.0.0.1'' 0 [alice] setex_client;
        f = refreshToken demo_config (Some r1) 5000 [alice] (snd l)
    in fst l = Success 200 [generateJWT demo_config alice (24 * 60 * 60) 0, r1]
     \<and> map_option val (r_lookup 0 (db (snd l)) (RefreshTokenKey ''1'')) = Some (VTok r1)
     \<and> fst f = Success 200 [generateJWT demo_config alice (24 * 60 * 60) 5000, r2]
     \<and> map_option val (r_lookup 5000 (db (snd f)) (RefreshTokenKey ''1'')) = Some (VTok r2)
     \<and> fst (refreshToken demo_config (Some r1) 6000 [alice] (snd f))
         = Reject 401 ''Invalid refresh token'' None
     \<and> fst (refreshToken demo_config (Some r2) 6000 [alice] (snd f))
         = Success 200 [generateJWT demo_config alice (24 * 60 * 60) 6000,
                        generateRefreshToken demo_config alice 6000])
   \<and> (let g = register demo_config carol_body ''3'' 7000 [alice] empty_client
      in fst g = Success 201 [generateJWT demo_config (last (fst (snd g))) (24 * 60 * 60) 7000,
                              generateRefreshToken demo_config (last (fst (snd g))) 7000]
       \<and> map_option val (r_lookup 7000 (db (snd (snd g))) (RefreshTokenKey ''3''))
           = Some (VTok (generateRefreshToken demo_config (last (fst (snd g))) 7000)))
   \<and> (let r1 = generateRefreshToken demo_config alice 0;
          l = login demo_config (alice_login False) ''10.0.0.1'' 0 [alice] empty_client;
          f = refreshToken demo_config (Some r1) 5000 [alice] (snd l)
      in fst l = Success 200 [generateJWT demo_config alice (24 * 60 * 60) 0, r1]
       \<and> map_option val (r_lookup 0 (db (snd l)) (RefreshTokenKey ''1'')) = Some (VTok r1)
       \<and> fst f = Reject 500 ''Token refresh failed'' None
       \<and> map_option val (r_lookup 5000 (db (snd f)) (RefreshTokenKey ''1'')) = Some (VTok r1)
       \<and> fst (refreshToken demo_config (Some (generateRefreshToken demo_config alice 1000))
                 5000 [alice] (snd l))
           = Reject 401 ''Invalid refresh token'' None)"
proof -
  let ?r1 = "generateRefreshToken demo_config alice 0"
  let ?l = "login demo_config (alice_login False) ''10.0.0.1'' 0 [alice] setex_client"
  let ?f = "refreshToken demo_config (Some ?r1) 5000 [alice] (snd ?l)"
  have nf: "\<not> failing (snd ?f)"
    by (simp add: us_defs store_ops demo_defs refresh_defs)
  have ne: "?r1 \<noteq> Opaque []" by (simp add: generateRefreshToken_def jwt_sign_def)
  have old: "\<not> (\<exists>secret p. refresh_secret demo_config = Some secret
                \<and> jwt_verify ?r1 secret 6000 = Inr p
                \<and> map_option val (r_lookup 6000 (db (snd ?f)) (RefreshTokenKey (userId p)))
                    = Some (VTok ?r1))"
    by (simp add: us_defs store_ops demo_defs refresh_defs)
  show ?thesis
    using single_refresh_token[of demo_config ?r1 6000 "[alice]" "snd ?f"] nf ne old
    by (simp add: Let_def) (simp add: us_defs store_ops demo_defs refresh_defs carol_body_def)
qed

section \<open>Token verification when the store is unavailable\<close>

lemmas gw_defs =
  verifyToken_def verifyToken_jwt_def verifyToken_decoded_def verifyToken_catch_def
  verifyToken_auth_error_def gw_logout_def blacklistToken_def blacklist_ttl_def
  jwt_decode_def jwt_verify_def jwt_sign_def floor_sec_def demo_gw_def

text \<open>
  Claim C6 as stated fails at the gateway. A token is blacklisted by the gateway's
  logout at 1 s and refused as revoked at 2 s. When the client is not ready at 2 s,
  \<open>verifyToken\<close> skips the blacklist read: the revoked token is let through, and no
  answer 503 is given.
\<close>

theorem unready_store_skips_revocation_check:
  "(let tok = jwt_sign ''1'' ''access-secret'' (24 * 60 * 60) 0;
        c1 = snd (gw_logout demo_gw (Bearer tok) 1000 empty_client)
    in fst (gw_logout demo_gw (Bearer tok) 1000 empty_client) = Success 200 []
     \<and> fst (verifyToken demo_gw (Bearer tok) 2000 c1)
         = Reject 401 ''Token invalid'' (Some ''TOKEN_REVOKED'')
     \<and> verifyToken demo_gw (Bearer tok) 2000 (c1\<lparr>isReady := False\<rparr>)
         = (Next, c1\<lparr>isReady := False\<rparr>))"
  by (simp add: gw_defs store_ops demo_defs Let_def)

lemma verifyToken_no_503: "fst (verifyToken cfg h now c) \<noteq> Reject 503 e k"
  by (auto simp: verifyToken_def verifyToken_jwt_def verifyToken_decoded_def
      verifyToken_catch_def verifyToken_auth_error_def r_get_def r_setex_def
      split: auth_header.splits sum.splits jwt_error.splits option.splits if_splits
        prod.splits)

lemma authenticateToken_no_503:
  "fst (fst (authenticateToken ucfg h now users c)) \<noteq> Reject 503 e k"
  by (auto simp: authenticateToken_def authenticateToken_jwt_def authenticateToken_user_def
      r_get_def
      split: auth_header.splits sum.splits jwt_error.splits option.splits if_splits
        prod.splits)

text \<open>
  Claim C6, amended: when the store is unavailable during token verification, the
  gateway's \<open>verifyToken\<close> with a client that is not ready issues no store command and
  lets through every token whose signature and expiry verify; with a ready client whose
  blacklist read is rejected it answers 401 AUTH_ERROR. The user service's
  \<open>authenticateToken\<close> answers 500 "Authentication failed" when its blacklist read is
  rejected. Neither verifier ever answers 503.
\<close>

theorem verification_with_store_unavailable:
  "(\<not> isReady c \<longrightarrow> jwt_verify tok (gw_jwt_secret cfg) now = Inr p
       \<longrightarrow> verifyToken cfg (Bearer tok) now c = (Next, c))
   \<and> (isReady c \<longrightarrow> failing c
       \<longrightarrow> fst (verifyToken cfg (Bearer tok) now c)
             = Reject 401 ''Authentication failed'' (Some ''AUTH_ERROR''))
   \<and> (failing c \<longrightarrow> tok \<noteq> Opaque []
       \<longrightarrow> fst (fst (authenticateToken ucfg (Bearer tok) now users c))
             = Reject 500 ''Authentication failed'' None)
   \<and> (\<forall>h e k. fst (verifyToken cfg h now c) \<noteq> Reject 503 e k)
   \<and> (\<forall>h e k. fst (fst (authenticateToken ucfg h now users c)) \<noteq> Reject 503 e k)"
proof (intro conjI allI impI)
  assume "\<not> isReady c" "jwt_verify tok (gw_jwt_secret cfg) now = Inr p"
  then show "verifyToken cfg (Bearer tok) now c = (Next, c)"
    by (auto simp: verifyToken_def verifyToken_jwt_def verifyToken_decoded_def jwt_verify_def
        split: token.splits option.splits if_splits)
next
  assume "isReady c" "failing c"
  then show "fst (verifyToken cfg (Bearer tok) now c)
             = Reject 401 ''Authentication failed'' (Some ''AUTH_ERROR'')"
    by (simp add: verifyToken_def r_get_def verifyToken_auth_error_def)
next
  assume "failing c" "tok \<noteq> Opaque []"
  then show "fst (fst (authenticateToken ucfg (Bearer tok) now users c))
             = Reject 500 ''Authentication failed'' None"
    by (simp add: authenticateToken_def r_get_def)
next
  fix h e k show "fst (verifyToken cfg h now c) \<noteq> Reject 503 e k"
    by (rule verifyToken_no_503)
next
  fix h e k show "fst (fst (authenticateToken ucfg h now users c)) \<noteq> Reject 503 e k"
    by (rule authenticateToken_no_503)
qed

text \<open>
  A run with Alice's token at 2 s: a gateway client that is not ready lets it through
  untouched; a ready gateway client whose commands are rejected answers 401 AUTH_ERROR;
  the user service answers 500.
\<close>

theorem verification_with_store_unavailable_witness:
  "(let tok = jwt_sign ''1'' ''access-secret'' (24 * 60 * 60) 0;
        down = empty_client\<lparr>faults := (\<lambda>i. True)\<rparr>
    in verifyToken demo_gw (Bearer tok) 2000 (down\<lparr>isReady := False\<rparr>)
         = (Next, down\<lparr>isReady := False\<rparr>)
     \<and> fst (verifyToken demo_gw (Bearer tok) 2000 down)
         = Reject 401 ''Authentication failed'' (Some ''AUTH_ERROR'')
     \<and> fst (fst (authenticateToken demo_config (Bearer tok) 2000 [alice] down))
         = Reject 500 ''Authentication failed'' None)"
proof -
  let ?tok = "jwt_sign ''1'' ''access-secret'' (24 * 60 * 60) 0"
  let ?down = "empty_client\<lparr>faults := (\<lambda>i. True)\<rparr>"
  have v: "jwt_verify ?tok (gw_jwt_secret demo_gw) 2000
             = Inr \<lparr>userId = ''1'', iat = 0, exp = Some 86400\<rparr>"
    by (simp add: gw_defs)
  have nr: "\<not> isReady (?down\<lparr>isReady := False\<rparr>)" by simp
  have r: "isReady ?down" by (simp add: empty_client_def)
  have f: "failing ?down" by (simp add: failing_def)
  have ne: "?tok \<noteq> Opaque []" by (simp add: jwt_sign_def)
  show ?thesis
    using verification_with_store_unavailable[of "?down\<lparr>isReady := False\<rparr>" ?tok demo_gw 2000
        "\<lparr>userId = ''1'', iat = 0, exp = Some 86400\<rparr>"]
      verification_with_store_unavailable[of ?down ?tok demo_gw 2000 _ demo_config "[alice]"]
      v nr r f ne
    by (simp add: Let_def)
qed

section \<open>Rate limiting when the store fails\<close>

lemma increment_unready: "\<not> isReady c \<Longrightarrow> increment p k W now c = (increment_fallback W, c)"
  by (simp add: increment_def)

lemma r_incr_failing: "failing c \<Longrightarrow> fst (r_incr now k c) = Inl RedisError"
  by (simp add: r_incr_def)

lemma r_expire_failing: "failing c \<Longrightarrow> fst (r_expire now k s c) = Inl RedisError"
  by (simp add: r_expire_def)

lemma r_ttl_failing: "failing c \<Longrightarrow> fst (r_ttl now k c) = Inl RedisError"
  by (simp add: r_ttl_def)

lemma expire_failing: "failing c \<Longrightarrow> fst (expire now k s c) = Inl RedisError"
  by (cases s) (simp_all add: expire_def r_expire_def)

lemma expire_after [simp]:
  "length (cmds (snd (expire now k s c))) = Suc (length (cmds c))"
  "faults (snd (expire now k s c)) = faults c"
  "isReady (snd (expire now k s c)) = isReady c"
  by (cases s; simp add: expire_def issue_def)+

lemma increment_ttl_faulted:
  assumes "failing c"
  shows "fst (increment_ttl k W cur now c) = increment_fallback W"
  using r_ttl_failing[OF assms, of now k]
  by (cases "r_ttl now k c") (simp add: increment_ttl_def)

lemma increment_ttl_after [simp]:
  "snd (increment_ttl k W cur now c) = issue (TTL k) c"
  using r_ttl_after[of now k c]
  by (cases "r_ttl now k c") (auto simp: increment_ttl_def split: sum.splits)

lemma increment_faulted:
  assumes "\<exists>i. length (cmds c) \<le> i \<and> i < length (cmds (snd (increment p k W now c)))
             \<and> faults c i"
  shows "fst (increment p k W now c) = increment_fallback W"
proof (cases "isReady c")
  case False
  then show ?thesis by (simp add: increment_def)
next
  case True
  obtain r1 c1 where i1: "r_incr now (RL p k) c = (r1, c1)" by (cases "r_incr now (RL p k) c")
  have c1: "cmds c1 = cmds c @ [INCR (RL p k)]" "faults c1 = faults c"
    using r_incr_after[of now "RL p k" c] i1 by simp_all
  show ?thesis
  proof (cases r1)
    case (Inl err)
    then show ?thesis using True i1 by (simp add: increment_def)
  next
    case (Inr current)
    then have ok1: "\<not> faults c (length (cmds c))"
      using r_incr_failing[of c now "RL p k"] i1 by (auto simp: failing_def)
    show ?thesis
    proof (cases "current = 1")
      case False
      have eq: "increment p k W now c = increment_ttl (RL p k) W current now c1"
        using True i1 Inr False by (simp add: increment_def)
      show ?thesis
      proof (cases "failing c1")
        case True
        then show ?thesis using eq by (simp add: increment_ttl_faulted)
      next
        case False
        then have "\<not> faults c (Suc (length (cmds c)))" using c1 by (simp add: failing_def)
        with ok1 assms eq c1 show ?thesis
          by (auto simp: issue_def less_Suc_eq)
      qed
    next
      case one: True
      obtain r2 c2 where i2: "expire now (RL p k) (js_ceil_sec W) c1 = (r2, c2)"
        by (cases "expire now (RL p k) (js_ceil_sec W) c1")
      have c2: "length (cmds c2) = Suc (Suc (length (cmds c)))" "faults c2 = faults c"
        using expire_after[of now "RL p k" "js_ceil_sec W" c1] i2 c1 by simp_all
      show ?thesis
      proof (cases r2)
        case (Inl err)
        then show ?thesis using True i1 Inr one i2 by (simp add: increment_def)
      next
        case (Inr b)
        then have ok2: "\<not> faults c (Suc (length (cmds c)))"
          using expire_failing[of c1 now "RL p k" "js_ceil_sec W"] i2 c1
          by (auto simp: failing_def)
        have eq: "increment p k W now c = increment_ttl (RL p k) W current now c2"
          using True i1 \<open>r1 = Inr current\<close> one i2 Inr by (simp add: increment_def)
        show ?thesis
        proof (cases "failing c2")
          case True
          then show ?thesis using eq by (simp add: increment_ttl_faulted)
        next
          case False
          then have "\<not> faults c (Suc (Suc (length (cmds c))))"
            using c2 by (simp add: failing_def)
          with ok1 ok2 assms eq c2 show ?thesis
            by (auto simp: issue_def less_Suc_eq)
        qed
      qed
    qed
  qed
qed

text \<open>
  Claim C5: the rate limiters fail open. At the gateway, when the client is not ready
  the store is not touched and the request is admitted; when any command that
  \<open>RedisStore.increment\<close> issues is rejected, the store reports a single hit and the
  request is admitted (for a limiter whose maximum is at least one, as all configured
  ones are). In the user service, when the read of the counter is rejected the request
  is admitted.
\<close>

theorem rate_limiter_fails_open:
  "(\<not> isReady c \<longrightarrow> 1 \<le> maxRequests lim \<longrightarrow> admit lim key now c = (Next, c))
   \<and> ((\<exists>i. length (cmds c) \<le> i \<and> i < length (cmds (snd (admit lim key now c))) \<and> faults c i)
        \<longrightarrow> 1 \<le> maxRequests lim \<longrightarrow> fst (admit lim key now c) = Next)
   \<and> ((\<exists>i. length (cmds c) \<le> i \<and> i < length (cmds (snd (rateLimiter opts key now c)))
            \<and> faults c i)
        \<longrightarrow> fst (rateLimiter opts key now c) = Next)"
proof (intro conjI impI)
  assume "\<not> isReady c" "1 \<le> maxRequests lim"
  then show "admit lim key now c = (Next, c)"
    by (simp add: admit_def verdict_def increment_unready increment_fallback_def)
next
  assume a: "\<exists>i. length (cmds c) \<le> i \<and> i < length (cmds (snd (admit lim key now c))) \<and> faults c i"
    and m: "1 \<le> maxRequests lim"
  have "snd (admit lim key now c) = snd (increment (prefix lim) key None now c)"
    by (simp add: admit_def split: prod.splits)
  with a have "fst (increment (prefix lim) key None now c) = increment_fallback None"
    by (intro increment_faulted) simp
  with m show "fst (admit lim key now c) = Next"
    by (cases "increment (prefix lim) key None now c")
       (simp add: admit_def verdict_def increment_fallback_def)
next
  assume "\<exists>i. length (cmds c) \<le> i \<and> i < length (cmds (snd (rateLimiter opts key now c)))
            \<and> faults c i"
  then show "fst (rateLimiter opts key now c) = Next"
    by (auto simp: rateLimiter_def r_get_def issue_def failing_def less_Suc_eq
        split: if_splits)
qed


lemma configured_maxima:
  "1 \<le> maxRequests authLimiter" "1 \<le> maxRequests uploadLimiter"
  "1 \<le> maxRequests analysisLimiter"
  by (simp_all add: authLimiter_def uploadLimiter_def analysisLimiter_def)

lemmas gw_rl_defs =
  admit_def verdict_def increment_def increment_ttl_def increment_fallback_def ceil_sec_def
  js_ceil_sec_def expire_def
  authLimiter_def uploadLimiter_def analysisLimiter_def generalLimiter_def

lemmas us_rl_defs = rateLimiter_def rateLimiter_finish_def windowStart_def parse_requests_def

text \<open>
  A run on the upload limiter (50 per minute) with the counter of 10.0.0.1 at 50: the
  working store rejects the next upload with 429; the same store with a client that is
  not ready, or rejecting every command, admits it. The user service's limiter with a
  full window rejects with a working store and admits with a failing one.
\<close>

theorem rate_limiter_fails_open_witness:
  "fst (admit uploadLimiter (IpIdent ''10.0.0.1'') 30000 full_upload)
     = Reject 429 ''Too many uploads'' (Some ''UPLOAD_RATE_LIMIT_EXCEEDED'')
   \<and> admit uploadLimiter (IpIdent ''10.0.0.1'') 30000 (full_upload\<lparr>isReady := False\<rparr>)
     = (Next, full_upload\<lparr>isReady := False\<rparr>)
   \<and> fst (admit uploadLimiter (IpIdent ''10.0.0.1'') 30000
            (full_upload\<lparr>faults := (\<lambda>i. True)\<rparr>)) = Next
   \<and> fst (rateLimiter login_limit (IpIdent ''10.0.0.1'') 30000 full_login)
     = Reject 429 ''Rate limit exceeded'' None
   \<and> fst (rateLimiter login_limit (IpIdent ''10.0.0.1'') 30000
            (full_login\<lparr>faults := (\<lambda>i. True)\<rparr>)) = Next"
proof -
  let ?u = "full_upload\<lparr>faults := (\<lambda>i. True)\<rparr>"
  let ?l = "full_login\<lparr>faults := (\<lambda>i. True)\<rparr>"
  have healthy_case:
    "fst (admit uploadLimiter (IpIdent ''10.0.0.1'') 30000 full_upload)
       = Reject 429 ''Too many uploads'' (Some ''UPLOAD_RATE_LIMIT_EXCEEDED'')"
    "fst (rateLimiter login_limit (IpIdent ''10.0.0.1'') 30000 full_login)
       = Reject 429 ''Rate limit exceeded'' None"
    by (simp_all add: gw_rl_defs us_rl_defs store_ops full_upload_def full_login_def
        login_limit_def)
  have nr: "\<not> isReady (full_upload\<lparr>isReady := False\<rparr>)" by simp
  have m: "1 \<le> maxRequests uploadLimiter" by (rule configured_maxima)
  have "length (cmds ?u) \<le> 0
      \<and> 0 < length (cmds (snd (admit uploadLimiter (IpIdent ''10.0.0.1'') 30000 ?u)))
      \<and> faults ?u 0"
    by (simp add: gw_rl_defs store_ops full_upload_def)
  then have eu: "\<exists>i. length (cmds ?u) \<le> i
      \<and> i < length (cmds (snd (admit uploadLimiter (IpIdent ''10.0.0.1'') 30000 ?u)))
      \<and> faults ?u i" by blast
  have "length (cmds ?l) \<le> 0
      \<and> 0 < length (cmds (snd (rateLimiter login_limit (IpIdent ''10.0.0.1'') 30000 ?l)))
      \<and> faults ?l 0"
    by (simp add: us_rl_defs store_ops full_login_def)
  then have el: "\<exists>i. length (cmds ?l) \<le> i
      \<and> i < length (cmds (snd (rateLimiter login_limit (IpIdent ''10.0.0.1'') 30000 ?l)))
      \<and> faults ?l i" by blast
  show ?thesis
    using rate_limiter_fails_open[of "full_upload\<lparr>isReady := False\<rparr>" uploadLimiter
        "IpIdent ''10.0.0.1''" 30000]
      rate_limiter_fails_open[of ?u uploadLimiter "IpIdent ''10.0.0.1''" 30000]
      rate_limiter_fails_open[of ?l _ "IpIdent ''10.0.0.1''" 30000 login_limit]
      healthy_case nr m eu el
    by simp
qed

section \<open>Rate-limit windows\<close>

lemma ceil_sec_pos: "0 < W \<Longrightarrow> 0 < ceil_sec W"
  by (simp add: ceil_sec_def)

text \<open>
  The gateway's limiter on a ready, working store. The first increment of a key finds
  no entry, creates it with the value 1 and sends \<open>EXPIRE\<close> with NaN, which the server
  refuses: the store reports the single hit of its fallback, which is the count. Any
  later increment raises the entry and leaves its expiry as it is.
\<close>

lemma admit_fst:
  "fst (admit lim key now c)
     = verdict lim (totalHits (fst (increment (prefix lim) key None now c)))"
  by (simp add: admit_def case_prod_beta)

lemma admit_snd:
  "snd (admit lim key now c) = snd (increment (prefix lim) key None now c)"
  by (simp add: admit_def case_prod_beta)

lemma admit_first:
  assumes "isReady c" "healthy c" "r_lookup now (db c) (RL (prefix lim) key) = None"
  shows "fst (admit lim key now c) = verdict lim 1"
    and "map_of (db (snd (admit lim key now c))) (RL (prefix lim) key)
           = Some \<lparr>val = VInt 1, expireAt = None\<rparr>"
    and "healthy (snd (admit lim key now c))"
    and "isReady (snd (admit lim key now c))"
    and "cmds (snd (admit lim key now c))
           = cmds c @ [INCR (RL (prefix lim) key), EXPIRE_NaN (RL (prefix lim) key)]"
  using assms
  by (simp_all add: admit_fst admit_snd increment_def increment_fallback_def expire_def
      js_ceil_sec_def r_incr_def issue_def failing_def healthy_def map_of_store)

lemma admit_live:
  assumes "isReady c" "healthy c" "r_lookup now (db c) (RL (prefix lim) key) = Some e"
    and "val e = VInt n"
  shows "fst (admit lim key now c) = verdict lim (n + 1)"
    and "map_of (db (snd (admit lim key now c))) (RL (prefix lim) key)
           = Some (e\<lparr>val := VInt (n + 1)\<rparr>)"
    and "healthy (snd (admit lim key now c))"
    and "isReady (snd (admit lim key now c))"
  using assms
  by (auto simp: admit_fst admit_snd increment_def increment_ttl_def increment_fallback_def
      expire_def js_ceil_sec_def r_incr_def r_ttl_def issue_def failing_def healthy_def
      r_lookup_store map_of_store split: option.splits)

lemma admit_all_Cons:
  "fst (admit_all lim key (t # ts) c)
     = fst (admit lim key t c) # fst (admit_all lim key ts (snd (admit lim key t c)))"
  "snd (admit_all lim key (t # ts) c) = snd (admit_all lim key ts (snd (admit lim key t c)))"
  by (simp_all add: case_prod_beta)

lemma admit_all_length: "length (fst (admit_all lim key ts c)) = length ts"
  by (induction ts arbitrary: c) (simp_all add: admit_all_Cons del: admit_all.simps(2))

lemma admit_counts:
  assumes "isReady c" "healthy c"
    and "counter_value now c (RL (prefix lim) key) = Some n"
  shows "counter_value now (snd (admit lim key now c)) (RL (prefix lim) key) = Some (n + 1)"
    and "fst (admit lim key now c) = verdict lim (n + 1)"
proof -
  have "counter_value now (snd (admit lim key now c)) (RL (prefix lim) key) = Some (n + 1)
      \<and> fst (admit lim key now c) = verdict lim (n + 1)"
  proof (cases "r_lookup now (db c) (RL (prefix lim) key)")
    case None
    then have n: "n = 0" using assms(3) by (simp add: counter_value_def)
    note f = admit_first[OF assms(1,2) None]
    show ?thesis using f(1,2) n
      by (simp add: counter_value_def r_lookup_def live_def)
  next
    case (Some e)
    then have v: "val e = VInt n"
      using assms(3) by (simp add: counter_value_def split: rval.splits)
    note r = admit_live[OF assms(1,2) Some v]
    have "live now e" using Some by (rule r_lookup_live)
    then have "r_lookup now (db (snd (admit lim key now c))) (RL (prefix lim) key)
                 = Some (e\<lparr>val := VInt (n + 1)\<rparr>)"
      using r(2) by (simp add: r_lookup_def live_def)
    then show ?thesis using r(1) by (simp add: counter_value_def)
  qed
  then show "counter_value now (snd (admit lim key now c)) (RL (prefix lim) key) = Some (n + 1)"
    and "fst (admit lim key now c) = verdict lim (n + 1)" by simp_all
qed

lemma admit_all_running:
  assumes "isReady c" "healthy c"
    and "map_of (db c) (RL (prefix lim) key) = Some \<lparr>val = VInt n, expireAt = None\<rparr>"
  shows "(\<forall>j<length ts. fst (admit_all lim key ts c) ! j = verdict lim (n + 1 + int j))
       \<and> map_of (db (snd (admit_all lim key ts c))) (RL (prefix lim) key)
           = Some \<lparr>val = VInt (n + int (length ts)), expireAt = None\<rparr>"
  using assms
proof (induction ts arbitrary: c n)
  case Nil
  then show ?case by simp
next
  case (Cons t ts)
  let ?e = "\<lparr>val = VInt n, expireAt = None\<rparr>"
  obtain r c' where a: "admit lim key t c = (r, c')" by (cases "admit lim key t c")
  have l: "r_lookup t (db c) (RL (prefix lim) key) = Some ?e"
    using Cons.prems(3) by (simp add: r_lookup_def live_def)
  have v: "val ?e = VInt n" by simp
  note st = admit_live[OF Cons.prems(1,2) l v]
  have r: "r = verdict lim (n + 1)" using st(1) a by simp
  have c': "isReady c'" "healthy c'"
    "map_of (db c') (RL (prefix lim) key) = Some \<lparr>val = VInt (n + 1), expireAt = None\<rparr>"
    using st a by simp_all
  have ih:
    "(\<forall>j<length ts. fst (admit_all lim key ts c') ! j = verdict lim (n + 1 + 1 + int j))
     \<and> map_of (db (snd (admit_all lim key ts c'))) (RL (prefix lim) key)
         = Some \<lparr>val = VInt (n + 1 + int (length ts)), expireAt = None\<rparr>"
    using Cons.IH[OF c'] by blast
  have fst_eq: "fst (admit_all lim key (t # ts) c) = r # fst (admit_all lim key ts c')"
    and snd_eq: "snd (admit_all lim key (t # ts) c) = snd (admit_all lim key ts c')"
    using a by (simp_all add: admit_all_Cons del: admit_all.simps(2))
  show ?case
  proof (intro conjI allI impI)
    fix j assume "j < length (t # ts)"
    then show "fst (admit_all lim key (t # ts) c) ! j = verdict lim (n + 1 + int j)"
      using ih r fst_eq by (cases j) (auto simp: algebra_simps)
  next
    show "map_of (db (snd (admit_all lim key (t # ts) c))) (RL (prefix lim) key)
            = Some \<lparr>val = VInt (n + int (length (t # ts))), expireAt = None\<rparr>"
      using ih snd_eq by (simp add: algebra_simps)
  qed
qed

lemma admit_run:
  assumes "isReady c" "healthy c" "r_lookup t0 (db c) (RL (prefix lim) key) = None"
  shows "(\<forall>j\<le>length ts. fst (admit_all lim key (t0 # ts) c) ! j = verdict lim (1 + int j))
       \<and> map_of (db (snd (admit_all lim key (t0 # ts) c))) (RL (prefix lim) key)
           = Some \<lparr>val = VInt (1 + int (length ts)), expireAt = None\<rparr>"
proof -
  let ?c1 = "snd (admit lim key t0 c)"
  note f = admit_first[OF assms]
  have run: "(\<forall>j<length ts. fst (admit_all lim key ts ?c1) ! j = verdict lim (1 + 1 + int j))
     \<and> map_of (db (snd (admit_all lim key ts ?c1))) (RL (prefix lim) key)
         = Some \<lparr>val = VInt (1 + int (length ts)), expireAt = None\<rparr>"
    using admit_all_running[OF f(4) f(3) f(2)] by simp
  show ?thesis
  proof (intro conjI allI impI)
    fix j assume "j \<le> length ts"
    then show "fst (admit_all lim key (t0 # ts) c) ! j = verdict lim (1 + int j)"
      using run f(1)
      by (cases j) (auto simp: admit_all_Cons algebra_simps simp del: admit_all.simps(2))
  next
    show "map_of (db (snd (admit_all lim key (t0 # ts) c))) (RL (prefix lim) key)
           = Some \<lparr>val = VInt (1 + int (length ts)), expireAt = None\<rparr>"
      using run by (simp add: admit_all_Cons del: admit_all.simps(2))
  qed
qed

lemma rateLimiter_decision:
  assumes "\<not> failing c"
    and "parse_requests (map_option val (r_lookup now (db c)
           (RateLimit key (windowStart (opt_windowMs opts) now)))) = Some n"
  shows "rateLimiter opts key now c
           = (if opt_max opts \<le> n then Reject 429 ''Rate limit exceeded'' None else Next,
              issue (GET (RateLimit key (windowStart (opt_windowMs opts) now))) c)"
  using assms by (simp add: rateLimiter_def r_get_def)

lemma rateLimiter_finish_entry:
  assumes "healthy c" "0 < opt_windowMs opts"
    and "\<not> ((skipSuccessfulRequests opts \<and> status < 400)
            \<or> (skipFailedRequests opts \<and> 400 \<le> status))"
    and "counter_value now c (RateLimit key (windowStart (opt_windowMs opts) reqTime)) = Some n"
  shows "map_of (db (rateLimiter_finish opts key reqTime status now c))
           (RateLimit key (windowStart (opt_windowMs opts) reqTime))
           = Some \<lparr>val = VInt (n + 1),
                   expireAt = Some (now + ceil_sec (opt_windowMs opts) * 1000)\<rparr>"
  using assms ceil_sec_pos[of "opt_windowMs opts"]
  by (auto simp: rateLimiter_finish_def counter_value_def r_incr_def r_expire_def
      issue_def failing_def healthy_def r_lookup_store map_of_store live_def
      entry_collapse dest: r_lookup_live
      split: option.splits rval.splits)

text \<open>
  Claim C4 as stated fails in two places. The user service's limiter for the login
  route, with the address's counter at its maximum of 10, rejects the request with 429
  and leaves the counter as it is: the only command is the read, so the rejected request
  is not counted. And the gateway's upload limiter, with the counter at its maximum of 50
  and a client that is not ready, admits the request and counts nothing.
\<close>

theorem rejected_request_not_counted:
  "rateLimiter login_limit (IpIdent ''10.0.0.1'') 30000 full_login
     = (Reject 429 ''Rate limit exceeded'' None,
        full_login\<lparr>cmds := [GET (RateLimit (IpIdent ''10.0.0.1'') 0)]\<rparr>)
   \<and> admit uploadLimiter (IpIdent ''10.0.0.1'') 30000 (full_upload\<lparr>isReady := False\<rparr>)
     = (Next, full_upload\<lparr>isReady := False\<rparr>)"
  by (simp add: gw_rl_defs us_rl_defs store_ops full_upload_def full_login_def login_limit_def)

text \<open>
  Claim C4, amended. For every key of a gateway limiter, with a ready client and a
  store without faults: every request raises the counter by one, admitted or rejected;
  it is admitted when the post-increment value is at most the maximum and rejected with
  429 otherwise; and for a run of requests that begins with no counter for the key and
  stays within the window, request number \<open>j + 1\<close> is admitted exactly when \<open>j + 1\<close>
  is at most the maximum, and all of them are counted. The user service's limiter is a
  different design: it admits while the stored count of the clock-aligned window is
  below the maximum, rejects with 429 from the maximum on without any write, and raises
  the count when the response of an admitted request finishes (unless the options skip
  it). What becomes of the gateway's count once the window has elapsed is not part of
  this statement.
\<close>

theorem limiter_counts_and_rejects:
  assumes "isReady c" "healthy c"
  shows "(\<forall>n. counter_value now c (RL (prefix lim) key) = Some n
            \<longrightarrow> counter_value now (snd (admit lim key now c)) (RL (prefix lim) key) = Some (n + 1)
              \<and> fst (admit lim key now c)
                  = (if n + 1 \<le> maxRequests lim then Next
                     else Reject 429 (limit_error lim) (Some (limit_code lim))))
       \<and> (r_lookup now (db c) (RL (prefix lim) key) = None
            \<longrightarrow> (\<forall>ts. (\<forall>t\<in>set ts. now \<le> t \<and> t < now + windowMs lim)
                  \<longrightarrow> (\<forall>j\<le>length ts. fst (admit_all lim key (now # ts) c) ! j
                          = (if 1 + int j \<le> maxRequests lim then Next
                             else Reject 429 (limit_error lim) (Some (limit_code lim))))
                    \<and> (\<forall>t. now \<le> t \<and> t < now + windowMs lim
                          \<longrightarrow> counter_value t (snd (admit_all lim key (now # ts) c))
                                (RL (prefix lim) key)
                              = Some (1 + int (length ts)))))
       \<and> (\<forall>opts ukey n. \<not> failing c
            \<longrightarrow> parse_requests (map_option val (r_lookup now (db c)
                    (RateLimit ukey (windowStart (opt_windowMs opts) now)))) = Some n
            \<longrightarrow> rateLimiter opts ukey now c
                  = (if opt_max opts \<le> n then Reject 429 ''Rate limit exceeded'' None else Next,
                     issue (GET (RateLimit ukey (windowStart (opt_windowMs opts) now))) c))
       \<and> (\<forall>opts ukey reqTime status n. 0 < opt_windowMs opts
            \<longrightarrow> \<not> ((skipSuccessfulRequests opts \<and> status < 400)
                    \<or> (skipFailedRequests opts \<and> 400 \<le> status))
            \<longrightarrow> counter_value now c (RateLimit ukey (windowStart (opt_windowMs opts) reqTime))
                  = Some n
            \<longrightarrow> counter_value now (rateLimiter_finish opts ukey reqTime status now c)
                    (RateLimit ukey (windowStart (opt_windowMs opts) reqTime)) = Some (n + 1))"
proof (intro conjI allI impI)
  fix n assume n: "counter_value now c (RL (prefix lim) key) = Some n"
  show "counter_value now (snd (admit lim key now c)) (RL (prefix lim) key) = Some (n + 1)"
    by (rule admit_counts[OF assms n])
  show "fst (admit lim key now c)
          = (if n + 1 \<le> maxRequests lim then Next
             else Reject 429 (limit_error lim) (Some (limit_code lim)))"
    using admit_counts(2)[OF assms n] by (simp add: verdict_def)
next
  fix ts :: "nat list" and j
  assume z: "r_lookup now (db c) (RL (prefix lim) key) = None"
    and j: "j \<le> length ts"
  show "fst (admit_all lim key (now # ts) c) ! j
          = (if 1 + int j \<le> maxRequests lim then Next
             else Reject 429 (limit_error lim) (Some (limit_code lim)))"
    using admit_run[OF assms z, of ts] j by (simp add: verdict_def)
next
  fix ts :: "nat list" and t
  assume z: "r_lookup now (db c) (RL (prefix lim) key) = None"
  show "counter_value t (snd (admit_all lim key (now # ts) c)) (RL (prefix lim) key)
          = Some (1 + int (length ts))"
    using admit_run[OF assms z, of ts]
    by (simp add: counter_value_def r_lookup_def live_def del: admit_all.simps)
next
  fix opts :: rl_options and ukey n
  assume "\<not> failing c"
    "parse_requests (map_option val (r_lookup now (db c)
       (RateLimit ukey (windowStart (opt_windowMs opts) now)))) = Some n"
  then show "rateLimiter opts ukey now c
      = (if opt_max opts \<le> n then Reject 429 ''Rate limit exceeded'' None else Next,
         issue (GET (RateLimit ukey (windowStart (opt_windowMs opts) now))) c)"
    by (rule rateLimiter_decision)
next
  fix opts :: rl_options and ukey reqTime and status :: nat and n
  assume w: "0 < opt_windowMs opts"
    and s: "\<not> ((skipSuccessfulRequests opts \<and> status < 400)
              \<or> (skipFailedRequests opts \<and> 400 \<le> status))"
    and n: "counter_value now c (RateLimit ukey (windowStart (opt_windowMs opts) reqTime))
              = Some n"
  show "counter_value now (rateLimiter_finish opts ukey reqTime status now c)
          (RateLimit ukey (windowStart (opt_windowMs opts) reqTime)) = Some (n + 1)"
    using rateLimiter_finish_entry[OF assms(2) w s n] ceil_sec_pos[OF w]
    by (simp add: counter_value_entry)
qed

text \<open>
  A window of two requests per two seconds at the gateway: of three requests within 0.2
  s the third is rejected, and all three are counted. In the user service a full login
  window rejects, and a finished (failed) login request is counted.
\<close>

theorem limiter_counts_and_rejects_witness:
  "fst (admit_all test_limiter (IpIdent ''10.0.0.1'') [0, 100, 200] empty_client)
     = [Next, Next, Reject 429 ''Too many requests'' (Some ''RATE_LIMIT_EXCEEDED'')]
   \<and> counter_value 300 (snd (admit_all test_limiter (IpIdent ''10.0.0.1'') [0, 100, 200]
        empty_client)) (RL ''test:'' (IpIdent ''10.0.0.1'')) = Some 3
   \<and> counter_value 300 (snd (admit test_limiter (IpIdent ''10.0.0.1'') 300
        (snd (admit_all test_limiter (IpIdent ''10.0.0.1'') [0, 100, 200] empty_client))))
        (RL ''test:'' (IpIdent ''10.0.0.1'')) = Some 4
   \<and> fst (rateLimiter login_limit (IpIdent ''10.0.0.1'') 30000 full_login)
       = Reject 429 ''Rate limit exceeded'' None
   \<and> counter_value 30000
        (rateLimiter_finish login_limit (IpIdent ''10.0.0.1'') 30000 401 30000 empty_client)
        (RateLimit (IpIdent ''10.0.0.1'') 0) = Some 1"
proof -
  let ?k = "IpIdent ''10.0.0.1''"
  let ?c3 = "snd (admit_all test_limiter ?k [0, 100, 200] empty_client)"
  have r: "isReady empty_client" and h: "healthy empty_client"
    by (simp_all add: empty_client_def healthy_def)
  have z: "r_lookup 0 (db empty_client) (RL (prefix test_limiter) ?k) = None"
    by (simp add: r_lookup_def empty_client_def)
  have ts: "\<forall>t\<in>set [100, 200]. 0 \<le> t \<and> t < 0 + windowMs test_limiter"
    by (simp add: test_limiter_def)
  note g = limiter_counts_and_rejects[OF r h, of 0 test_limiter ?k]
  from g z ts have run:
    "\<forall>j\<le>length [100::nat, 200]. fst (admit_all test_limiter ?k (0 # [100, 200]) empty_client) ! j
        = (if 1 + int j \<le> maxRequests test_limiter then Next
           else Reject 429 (limit_error test_limiter) (Some (limit_code test_limiter)))"
    and cnt: "\<forall>t. 0 \<le> t \<and> t < 0 + windowMs test_limiter
             \<longrightarrow> counter_value t (snd (admit_all test_limiter ?k (0 # [100, 200]) empty_client))
                   (RL (prefix test_limiter) ?k)
                 = Some (1 + int (length [100::nat, 200]))"
    by blast+
  have len: "length (fst (admit_all test_limiter ?k [0, 100, 200] empty_client)) = 3"
    using admit_all_length[of test_limiter ?k "[0, 100, 200]" empty_client] by simp
  have o: "fst (admit_all test_limiter ?k [0, 100, 200] empty_client)
             = [Next, Next, Reject 429 ''Too many requests'' (Some ''RATE_LIMIT_EXCEEDED'')]"
  proof (rule nth_equalityI)
    show "length (fst (admit_all test_limiter ?k [0, 100, 200] empty_client))
            = length [Next, Next, Reject 429 ''Too many requests'' (Some ''RATE_LIMIT_EXCEEDED'')]"
      using len by simp
  next
    fix i assume "i < length (fst (admit_all test_limiter ?k [0, 100, 200] empty_client))"
    then have "i = 0 \<or> i = 1 \<or> i = 2" using len by auto
    then show "fst (admit_all test_limiter ?k [0, 100, 200] empty_client) ! i
             = [Next, Next, Reject 429 ''Too many requests'' (Some ''RATE_LIMIT_EXCEEDED'')] ! i"
      using run by (auto simp: test_limiter_def)
  qed
  have c300: "counter_value 300 ?c3 (RL ''test:'' ?k) = Some 3"
    using cnt by (simp add: test_limiter_def)
  have r3: "isReady ?c3" and h3: "healthy ?c3"
    by (simp_all add: gw_rl_defs store_ops test_limiter_def empty_client_def healthy_def)
  have c4: "counter_value 300 (snd (admit test_limiter ?k 300 ?c3)) (RL ''test:'' ?k)
              = Some (3 + 1)"
    using limiter_counts_and_rejects[OF r3 h3, of 300 test_limiter ?k] c300
    by (simp add: test_limiter_def del: admit_all.simps)
  have nf: "\<not> failing full_login" by (simp add: failing_def full_login_def)
  have pr: "parse_requests (map_option val (r_lookup 30000 (db full_login)
              (RateLimit ?k (windowStart (opt_windowMs login_limit) 30000)))) = Some 10"
    by (simp add: us_rl_defs store_ops full_login_def login_limit_def)
  have rh: "isReady full_login" "healthy full_login"
    by (simp_all add: full_login_def healthy_def)
  have u1: "fst (rateLimiter login_limit ?k 30000 full_login)
              = Reject 429 ''Rate limit exceeded'' None"
    using limiter_counts_and_rejects[OF rh, of 30000 test_limiter ?k] nf pr
    by (simp add: login_limit_def)
  have wl: "0 < opt_windowMs login_limit" by (simp add: login_limit_def)
  have sk: "\<not> ((skipSuccessfulRequests login_limit \<and> (401::nat) < 400)
              \<or> (skipFailedRequests login_limit \<and> 400 \<le> (401::nat)))"
    by (simp add: login_limit_def)
  have c0: "counter_value 30000 empty_client
              (RateLimit ?k (windowStart (opt_windowMs login_limit) 30000)) = Some 0"
    by (simp add: counter_value_def r_lookup_def empty_client_def)
  have u2: "counter_value 30000 (rateLimiter_finish login_limit ?k 30000 401 30000 empty_client)
              (RateLimit ?k (windowStart (opt_windowMs login_limit) 30000)) = Some (0 + 1)"
    using limiter_counts_and_rejects[OF r h, of 30000 test_limiter ?k] wl sk c0 by blast
  have ws: "windowStart (opt_windowMs login_limit) 30000 = 0"
    by (simp add: windowStart_def login_limit_def)
  show ?thesis using o c300 c4 u1 u2 ws by simp
qed

text \<open>
  The user service's limiter is a design of its own. With a window of one minute,
  requests counted at 1 s and at 2 s both set the expiry (61 s, then 62 s): it is
  attached at every increment. The key carries the window start on the clock: a request
  at 59.999 s reads the counter of window 0, a request at 60 s reads a new counter, 59
  seconds after the first request of the cycle.
\<close>

lemma user_service_window_is_clock_aligned:
  "(let k = IpIdent ''10.0.0.1'';
        c1 = rateLimiter_finish minute_limit k 1000 200 1000 empty_client;
        c2 = rateLimiter_finish minute_limit k 2000 200 2000 c1
    in map_of (db c1) (RateLimit k 0) = Some \<lparr>val = VInt 1, expireAt = Some 61000\<rparr>
     \<and> map_of (db c2) (RateLimit k 0) = Some \<lparr>val = VInt 2, expireAt = Some 62000\<rparr>
     \<and> snd (rateLimiter minute_limit k 59999 c2) = c2\<lparr>cmds := cmds c2 @ [GET (RateLimit k 0)]\<rparr>
     \<and> snd (rateLimiter minute_limit k 60000 c2)
         = c2\<lparr>cmds := cmds c2 @ [GET (RateLimit k 60000)]\<rparr>)"
  by (simp add: us_rl_defs store_ops minute_limit_def empty_client_def ceil_sec_def Let_def)

text \<open>
  Claim C9 (the window expiry is attached on the first increment of a cycle and equals
  the window length), run on the gateway's limiter with a window of two requests per two
  seconds. The first request, at 0.5 s, increments the counter and sends \<open>EXPIRE\<close> with
  NaN, because \<open>increment\<close> is called without its \<open>windowMs\<close>; the server refuses it
  and the entry is left without an expiry. After requests at 1.5 s and 2.499 s the entry
  holds 3 and still has no expiry, so the count never returns to zero: the request at
  5 s, 2.5 s after the window should have ended, is rejected, and so is a request a day
  later. Handed its window, the same first increment sets the expiry to 2.5 s.
\<close>

theorem gateway_expiry_never_attached:
  "(let k = IpIdent ''10.0.0.1'';
        c1 = snd (admit test_limiter k 500 empty_client);
        r3 = admit_all test_limiter k [500, 1500, 2499] empty_client
    in cmds c1 = [INCR (RL ''test:'' k), EXPIRE_NaN (RL ''test:'' k)]
     \<and> map_of (db c1) (RL ''test:'' k) = Some \<lparr>val = VInt 1, expireAt = None\<rparr>
     \<and> fst r3 = [Next, Next, Reject 429 ''Too many requests'' (Some ''RATE_LIMIT_EXCEEDED'')]
     \<and> map_of (db (snd r3)) (RL ''test:'' k) = Some \<lparr>val = VInt 3, expireAt = None\<rparr>
     \<and> fst (admit test_limiter k 5000 (snd r3))
         = Reject 429 ''Too many requests'' (Some ''RATE_LIMIT_EXCEEDED'')
     \<and> fst (admit test_limiter k 86400000 (snd r3))
         = Reject 429 ''Too many requests'' (Some ''RATE_LIMIT_EXCEEDED'')
     \<and> map_of (db (snd (increment ''test:'' k (Some 2000) 500 empty_client))) (RL ''test:'' k)
         = Some \<lparr>val = VInt 1, expireAt = Some 2500\<rparr>)"
  by (simp add: gw_rl_defs store_ops test_limiter_def empty_client_def Let_def)

end
